theory Spec2Isabelle
  imports Complex_Main "HOL-Library.Word" "HOL-Library.Multiset" "HOL-Library.AList"
begin

unbundle bit_operations_syntax

section \<open>Utils\<close>

text \<open>
  A JavaScript string is a sequence of 16-bit code units; \<^verbatim>\<open>charCodeAt\<close> reads one of them.
\<close>

type_synonym jsstring = "16 word list"

text \<open>
  The bitwise operators of JavaScript convert both operands with ToInt32 and give a signed
  32-bit result; \<^verbatim>\<open>x >>> 0\<close> reads the same 32 bits as an unsigned number. In
  \<^verbatim>\<open>hashStr\<close> the product \<^verbatim>\<open>hash * 33\<close> is below \<open>2 ^ 37\<close> in absolute value, so the
  double-precision multiplication is exact and the integer model agrees with it.
\<close>

definition toUint32 :: "int \<Rightarrow> nat" where
  "toUint32 x = unat (word_of_int x :: 32 word)"

definition js_xor :: "int \<Rightarrow> int \<Rightarrow> int" where
  "js_xor a b = sint ((word_of_int a :: 32 word) XOR (word_of_int b :: 32 word))"

text \<open>
  \<^verbatim>\<open>while (i) { hash = (hash * 33) ^ str.charCodeAt(--i); }\<close>:
  the loop counter runs from \<^verbatim>\<open>str.length\<close> down to zero and the unit read is the one
  at the decremented index.
\<close>

fun hashLoop :: "int \<Rightarrow> jsstring \<Rightarrow> nat \<Rightarrow> int" where
  "hashLoop hash str 0 = hash"
| "hashLoop hash str (Suc i) = hashLoop (js_xor (hash * 33) (uint (str ! i))) str i"

text \<open>
  \<^verbatim>\<open>Utils.hashStr(str, bits)\<close>. The argument \<^verbatim>\<open>bits\<close> is optional: \<open>None\<close> is
  \<^verbatim>\<open>undefined\<close>, and both \<^verbatim>\<open>undefined\<close> and \<^verbatim>\<open>0\<close> are falsy and select the default 8.
  The modulus \<^verbatim>\<open>Math.pow(2, bits) - 1\<close> is therefore at least 1.
\<close>

definition hashStr :: "jsstring \<Rightarrow> nat option \<Rightarrow> nat" where
  "hashStr str bits =
     (let hash = hashLoop 5381 str (length str);
          bits' = (case bits of None \<Rightarrow> 8 | Some b \<Rightarrow> if b = 0 then 8 else b);
          hash' = toUint32 hash
      in hash' mod (2 ^ bits' - 1))"

section \<open>Errors\<close>

text \<open>
  A thrown exception is a value: \<open>Error\<close> is \<^verbatim>\<open>throw new Error(...)\<close> of the source,
  \<open>TypeError\<close> is the exception the JavaScript runtime raises when a property of
  \<^verbatim>\<open>undefined\<close> is read or a value that is not a function is called, \<open>RangeError\<close> the
  one a \<^verbatim>\<open>DataView\<close> raises for an offset outside its buffer.
\<close>

datatype error = Error string | TypeError string | RangeError string

section \<open>Serializable\<close>

text \<open>
  Modelled from the spec: \<^verbatim>\<open>BaseTypes.TYPES\<close>, which is not among the sources. The spec
  lists the field types as UINT8, INT16, INT32, FLOAT32, STRING, CLASSINSTANCE and LIST with
  an item type. A netScheme is the object literal that the static getter \<^verbatim>\<open>netScheme\<close> of a
  class returns: field names with their descriptors, in the order of declaration.
\<close>

datatype baseType = UINT8 | INT16 | INT32 | FLOAT32 | STRING | CLASSINSTANCE | LIST

record netField =
  fieldType :: baseType
  itemType :: "baseType option"

type_synonym netScheme = "(string \<times> netField) list"

text \<open>
  The values of the properties of an instance: \<^verbatim>\<open>undefined\<close>, \<^verbatim>\<open>null\<close>, numbers, strings,
  and references to objects, which are compared by identity.
\<close>

datatype jsval = Undefined | Null | Num real | Str string | Ref nat

text \<open>
  An instance of a class that extends \<^verbatim>\<open>Serializable\<close>: the name of its constructor, its
  own \<^verbatim>\<open>classId\<close> and \<^verbatim>\<open>netScheme\<close> if set, the static \<^verbatim>\<open>netScheme\<close> of its class, and
  its properties.
\<close>

record Serializable =
  className :: string
  classId :: "nat option"
  netScheme :: "netScheme option"
  classNetScheme :: "netScheme option"
  props :: "(string \<times> jsval) list"

definition getProp :: "Serializable \<Rightarrow> string \<Rightarrow> jsval" where
  "getProp this p = (case map_of (props this) p of None \<Rightarrow> Undefined | Some v \<Rightarrow> v)"

definition setProp :: "Serializable \<Rightarrow> string \<Rightarrow> jsval \<Rightarrow> Serializable" where
  "setProp this p v = this\<lparr>props := AList.update p v (props this)\<rparr>"

text \<open>The code units of a string of the model, whose characters are single bytes.\<close>

definition toCodeUnits :: "string \<Rightarrow> jsstring" where
  "toCodeUnits str = map (\<lambda>c. of_nat (of_char c)) str"

text \<open>
  The options of \<^verbatim>\<open>serialize\<close>, after \<^verbatim>\<open>Object.assign({ bufferOffset: 0 }, options)\<close>. An
  \<^verbatim>\<open>ArrayBuffer\<close> is a list of bytes.
\<close>

record SerializableOptions =
  dataBuffer :: "8 word list option"
  bufferOffset :: "nat option"
  dry :: "bool option"

text \<open>
  \<^verbatim>\<open>serialize(serializer, options)\<close>. The result is the pair of \<^verbatim>\<open>dataBuffer\<close> and
  \<^verbatim>\<open>bufferOffset\<close> of the returned object.

  Without a buffer and not dry, the method first calls itself with \<^verbatim>\<open>{ dry: true }\<close> to
  learn the size. Unless dry, it writes the class id as one byte at the buffer offset. Then,
  for a netScheme, the header of the loop over the fields,
  \<^verbatim>\<open>for (let property in (netScheme).sort())\<close>, calls \<^verbatim>\<open>sort\<close> on the netScheme itself. A
  netScheme is a plain object, and a plain object has no method \<^verbatim>\<open>sort\<close>, so the call
  raises a TypeError before the first field; the body of the loop, which would use the
  serializer, is never entered and has no part in the model.
\<close>

function serialize :: "Serializable \<Rightarrow> SerializableOptions \<Rightarrow> error + (8 word list option \<times> nat)" where
  "serialize this opts =
     (let classId' = (case classId this of
                        None \<Rightarrow> hashStr (toCodeUnits (className this)) None
                      | Some c \<Rightarrow> if c = 0 then hashStr (toCodeUnits (className this)) None else c);
          netScheme' = (case netScheme this of Some ns \<Rightarrow> Some ns | None \<Rightarrow> classNetScheme this);
          offset = (case bufferOffset opts of None \<Rightarrow> 0 | Some b \<Rightarrow> b);
          isDry = (dry opts = Some True);
          sized = (if dataBuffer opts = None \<and> \<not> isDry
                   then (case serialize this \<lparr>dataBuffer = None, bufferOffset = None, dry = Some True\<rparr> of
                           Inl err \<Rightarrow> Inl err
                         | Inr (b, bufferSize) \<Rightarrow> Inr (Some (replicate bufferSize 0)))
                   else Inr (dataBuffer opts))
      in case sized of
           Inl err \<Rightarrow> Inl err
         | Inr buffer \<Rightarrow>
             (let written =
                (if isDry then Inr buffer
                 else (case buffer of
                         None \<Rightarrow> Inl (TypeError ''DataView needs an ArrayBuffer'')
                       | Some bytes \<Rightarrow>
                           if offset < length bytes
                           then Inr (Some (bytes[offset := of_nat classId']))
                           else Inl (RangeError ''offset is outside the bounds of the DataView'')))
              in case written of
                   Inl err \<Rightarrow> Inl err
                 | Inr buffer' \<Rightarrow>
                     (case netScheme' of
                        None \<Rightarrow> Inr (buffer', 1)
                      | Some ns \<Rightarrow> Inl (TypeError ''netScheme.sort is not a function''))))"
  by pat_completeness auto
termination
  by (relation "measure (\<lambda>(this, opts). if dry opts = Some True then 0 else 1)") auto

declare serialize.simps [simp del]

text \<open>
  \<^verbatim>\<open>prunedStringsClone(serializer, prevObject)\<close>. \<^verbatim>\<open>serializer.deserialize\<close> is not among
  the sources and is a parameter, as is the constructor of the class, called as
  \<^verbatim>\<open>new this.constructor(null, { id: null })\<close>. \<^verbatim>\<open>prevObject\<close> is the buffer sent before,
  if any. Reading \<^verbatim>\<open>Object.keys\<close> of an absent netScheme raises a TypeError.
\<close>

definition isString :: "netScheme \<Rightarrow> string \<Rightarrow> bool" where
  "isString ns p = (case map_of ns p of None \<Rightarrow> False | Some f \<Rightarrow> fieldType f = STRING)"

definition prunedStringsClone :: "('buf \<Rightarrow> error + Serializable) \<Rightarrow> (Serializable \<Rightarrow> Serializable)
    \<Rightarrow> Serializable \<Rightarrow> 'buf option \<Rightarrow> error + Serializable" where
  "prunedStringsClone deserialize newInstance this prevObject =
     (case prevObject of
        None \<Rightarrow> Inr this
      | Some prevBuffer \<Rightarrow>
          (case deserialize prevBuffer of
             Inl err \<Rightarrow> Inl err
           | Inr prev \<Rightarrow>
               (case classNetScheme this of
                  None \<Rightarrow> Inl (TypeError ''cannot convert undefined to object'')
                | Some ns \<Rightarrow>
                    (let hasChanged = (\<lambda>p. getProp prev p \<noteq> getProp this p);
                         changedStrings = filter hasChanged (filter (isString ns) (map fst ns))
                     in if length changedStrings = 0 then Inr this
                        else Inr (fold (\<lambda>p prunedCopy.
                                    setProp prunedCopy p
                                      (if p \<notin> set changedStrings then getProp this p else Null))
                                  (map fst ns) (newInstance this))))))"

text \<open>
  The class and the objects of the example for string pruning: a player with a name and a
  title, whose title has changed since the previous send and whose name has not. The
  constructor leaves the fields of the netScheme unset.
\<close>

definition playerScheme :: netScheme where
  "playerScheme = [(''id'', \<lparr>fieldType = INT32, itemType = None\<rparr>),
                   (''name'', \<lparr>fieldType = STRING, itemType = None\<rparr>),
                   (''title'', \<lparr>fieldType = STRING, itemType = None\<rparr>)]"

definition newPlayer :: Serializable where
  "newPlayer = \<lparr>className = ''Player'', classId = None, netScheme = None,
                 classNetScheme = Some playerScheme, props = [(''id'', Null)]\<rparr>"

definition playerBefore :: Serializable where
  "playerBefore = newPlayer\<lparr>props := [(''id'', Num 7), (''name'', Str ''ann''),
                                        (''title'', Str ''pawn'')]\<rparr>"

definition playerNow :: Serializable where
  "playerNow = newPlayer\<lparr>props := [(''id'', Num 7), (''name'', Str ''ann''),
                                     (''title'', Str ''queen'')]\<rparr>"

text \<open>A \<^verbatim>\<open>TwoVector(1, 2)\<close> with the static netScheme of its class.\<close>

definition twoVectorInstance :: Serializable where
  "twoVectorInstance =
     \<lparr>className = ''TwoVector'', classId = None, netScheme = None,
      classNetScheme = Some [(''x'', \<lparr>fieldType = FLOAT32, itemType = None\<rparr>),
                             (''y'', \<lparr>fieldType = FLOAT32, itemType = None\<rparr>)],
      props = [(''x'', Num 1), (''y'', Num 2)]\<rparr>"

section \<open>GameObject\<close>

text \<open>
  The fields of \<^verbatim>\<open>GameObject\<close> that the engine reads. \<^verbatim>\<open>inputId\<close> is a class field with
  the initialiser 0, so every instance owns the property and
  \<^verbatim>\<open>o.hasOwnProperty('inputId')\<close> holds for every game object. The field \<^verbatim>\<open>id\<close> is named
  \<open>objId\<close> here.
\<close>

record GameObject =
  objId :: nat
  playerId :: nat
  inputId :: int
  roomName :: "string option"

section \<open>GameWorld\<close>

text \<open>
  \<^verbatim>\<open>objects: Record<number, GameObject>\<close> is an association list from ids to objects;
  \<^verbatim>\<open>id in this.objects\<close> is membership among the keys, \<^verbatim>\<open>this.objects[id]\<close> is
  \<open>map_of\<close>.
\<close>

record 'o GameWorld =
  stepCount :: nat
  playerCount :: nat
  idCount :: nat
  objects :: "(nat \<times> 'o) list"

text \<open>
  \<^verbatim>\<open>while (possibleId in this.objects) possibleId++;\<close>
  The loop ends because the keys are finitely many.
\<close>

function findFreeId :: "nat list \<Rightarrow> nat \<Rightarrow> nat" where
  "findFreeId keys possibleId =
     (if possibleId \<in> set keys then findFreeId keys (possibleId + 1) else possibleId)"
  by pat_completeness auto
termination
proof (relation "measure (\<lambda>(keys, possibleId). Suc (Max (set keys)) - possibleId)")
  show "wf (measure (\<lambda>(keys, possibleId). Suc (Max (set keys)) - possibleId))"
    by simp
next
  fix keys :: "nat list" and possibleId :: nat
  assume "possibleId \<in> set keys"
  then have "possibleId \<le> Max (set keys)"
    by simp
  then show "((keys, possibleId + 1), (keys, possibleId))
      \<in> measure (\<lambda>(keys, possibleId). Suc (Max (set keys)) - possibleId)"
    by simp
qed

declare findFreeId.simps [simp del]

definition getNewId :: "'o GameWorld \<Rightarrow> nat \<times> 'o GameWorld" where
  "getNewId w =
     (let possibleId = findFreeId (map fst (objects w)) (idCount w)
      in (possibleId, w\<lparr>idCount := possibleId + 1\<rparr>))"

definition addObject :: "'a GameObject_scheme \<Rightarrow> 'a GameObject_scheme GameWorld
    \<Rightarrow> 'a GameObject_scheme GameWorld" where
  "addObject object w = w\<lparr>objects := AList.update (objId object) object (objects w)\<rparr>"

definition removeObject :: "nat \<Rightarrow> 'o GameWorld \<Rightarrow> 'o GameWorld" where
  "removeObject ident w = w\<lparr>objects := AList.delete ident (objects w)\<rparr>"

text \<open>
  \<^verbatim>\<open>forEachObject(callback)\<close>: the callback is given the id, the object and the state of the
  variables it closes over; it returns their new state and whether the iteration goes on
  (\<open>False\<close> is the return value \<^verbatim>\<open>false\<close>, which breaks the loop).
\<close>

fun forEachObject :: "(nat \<Rightarrow> 'o \<Rightarrow> 's \<Rightarrow> 's \<times> bool) \<Rightarrow> (nat \<times> 'o) list \<Rightarrow> 's \<Rightarrow> 's" where
  "forEachObject callback [] acc = acc"
| "forEachObject callback ((ident, object) # rest) acc =
     (case callback ident object acc of
        (acc', continue) \<Rightarrow> if continue then forEachObject callback rest acc' else acc')"

section \<open>InputDescriptor\<close>

text \<open>
  An input as sent by a client. \<^verbatim>\<open>options\<close> is an optional map of the game's own, of which
  the engine reads \<^verbatim>\<open>movement\<close> only.
\<close>

record InputOptions =
  movement :: "bool option"

record InputDescriptor =
  input :: string
  messageIndex :: nat
  step :: nat
  options :: "InputOptions option"

section \<open>GameEngine\<close>

text \<open>
  What the engine does to the outside is recorded in order: the hooks it calls on objects,
  the events it emits, the inputs it hands to \<^verbatim>\<open>processInput\<close> (with the player id and the
  flag \<^verbatim>\<open>isServer\<close>) and the steps it asks of the physics engine (with the time in seconds
  and the flag \<^verbatim>\<open>isReenact\<close> that the object filter closes over). Tracing is left out.
\<close>

datatype effect =
    Call_onAddToWorld nat
  | Call_onRemoveFromWorld nat
  | Emit_objectAdded nat
  | Emit_objectDestroyed nat
  | Emit_preStep nat bool "real option"
  | Emit_postStep nat bool
  | Call_physicsStep "real option" "bool option"
  | Emit_server_preStep nat
  | Emit_server_postStep nat
  | Emit_server_processInput InputDescriptor nat
  | Emit_processInput InputDescriptor nat
  | Call_processInput InputDescriptor nat bool

text \<open>
  \<^verbatim>\<open>options.clientIDSpace\<close> is set on a client only (\<^verbatim>\<open>defaultOpts\<close>); on the server it
  is \<^verbatim>\<open>undefined\<close>, and a comparison with \<^verbatim>\<open>undefined\<close> is false. \<open>physicsEngine\<close> tells
  whether a physics engine is attached; the engine's own \<^verbatim>\<open>playerId\<close> is named
  \<open>enginePlayerId\<close>.
\<close>

record 'o GameEngine =
  world :: "'o GameWorld"
  clientIDSpace :: "nat option"
  enginePlayerId :: nat
  physicsEngine :: bool
  ignorePhysics :: bool
  effects :: "effect list"

definition inClientIDSpace :: "'o GameEngine \<Rightarrow> nat \<Rightarrow> bool" where
  "inClientIDSpace e ident = (case clientIDSpace e of None \<Rightarrow> False | Some c \<Rightarrow> c \<le> ident)"

text \<open>
  The callback of \<^verbatim>\<open>addObjectToWorld\<close>; the state it closes over is the flag
  \<^verbatim>\<open>serverCopyArrived\<close>.
\<close>

definition serverCopyCallback :: "'a GameObject_scheme \<Rightarrow> nat \<Rightarrow> 'a GameObject_scheme \<Rightarrow> bool
    \<Rightarrow> bool \<times> bool" where
  "serverCopyCallback object ident o' serverCopyArrived =
     (if inputId o' = inputId object then (True, False) else (serverCopyArrived, True))"

text \<open>
  \<^verbatim>\<open>addObjectToWorld(object)\<close> returns the object, or \<^verbatim>\<open>undefined\<close> (\<open>None\<close>) when the
  shadow object is not added.
\<close>

definition addObjectToWorld :: "'a GameObject_scheme GameEngine \<Rightarrow> 'a GameObject_scheme
    \<Rightarrow> 'a GameObject_scheme option \<times> 'a GameObject_scheme GameEngine" where
  "addObjectToWorld e object =
     (if inClientIDSpace e (objId object)
         \<and> forEachObject (serverCopyCallback object) (objects (world e)) False
      then (None, e)
      else (Some object,
            e\<lparr>world := addObject object (world e),
              effects := effects e @ [Call_onAddToWorld (objId object),
                                      Emit_objectAdded (objId object)]\<rparr>))"

text \<open>
  \<^verbatim>\<open>removeObjectFromWorld(objectId)\<close> takes an object or an id. The result is the exception
  thrown, if any, together with the state of the engine at that point.
\<close>

datatype 'o objectRef = ById nat | ByObject 'o

text \<open>\<^verbatim>\<open>if (typeof objectId === 'object') objectId = objectId.id;\<close>\<close>

fun objectIdOf :: "'a GameObject_scheme objectRef \<Rightarrow> nat" where
  "objectIdOf (ById i) = i"
| "objectIdOf (ByObject ob) = objId ob"

definition removeObjectFromWorld :: "'a GameObject_scheme GameEngine
    \<Rightarrow> 'a GameObject_scheme objectRef \<Rightarrow> (error + unit) \<times> 'a GameObject_scheme GameEngine" where
  "removeObjectFromWorld e ref =
     (let objectId = objectIdOf ref
      in case map_of (objects (world e)) objectId of
           None \<Rightarrow> (Inl (Error ''Game attempted to remove a game object which does not exist''), e)
         | Some object \<Rightarrow>
             (Inr (),
              e\<lparr>effects := effects e @ [Call_onRemoveFromWorld (objId object),
                                       Emit_objectDestroyed (objId object)],
                world := removeObject objectId (world e)\<rparr>))"

text \<open>
  \<^verbatim>\<open>step(isReenact, t, dt, physicsOnly)\<close>. \<^verbatim>\<open>isReenact\<close> may be \<^verbatim>\<open>undefined\<close> (\<open>None\<close>),
  which the method rejects; \<^verbatim>\<open>t\<close> is not used; \<^verbatim>\<open>dt\<close> is optional and is divided by
  1000 when truthy.
\<close>

definition dtSeconds :: "real option \<Rightarrow> real option" where
  "dtSeconds dt' = (case dt' of None \<Rightarrow> None | Some d \<Rightarrow> if d = 0 then Some d else Some (d / 1000))"

definition GameEngine_step :: "'o GameEngine \<Rightarrow> bool option \<Rightarrow> real option \<Rightarrow> bool
    \<Rightarrow> (error + unit) \<times> 'o GameEngine" where
  "GameEngine_step e isReenact dt' physicsOnly =
     (if physicsOnly
      then (Inr (),
            if physicsEngine e
            then e\<lparr>effects := effects e @ [Call_physicsStep (dtSeconds dt') isReenact]\<rparr>
            else e)
      else
        (case isReenact of
           None \<Rightarrow> (Inl (Error ''game engine does not forward argument isReenact to super class''), e)
         | Some r \<Rightarrow>
             (let step' = stepCount (world e) + 1
              in (Inr (),
                  e\<lparr>world := (world e)\<lparr>stepCount := step'\<rparr>,
                    effects := effects e
                      @ [Emit_preStep step' r dt']
                      @ (if physicsEngine e \<and> \<not> ignorePhysics e
                         then [Call_physicsStep (dtSeconds dt') (Some r)] else [])
                      @ [Emit_postStep step' r]\<rparr>))))"


section \<open>ServerEngine\<close>

text \<open>
  \<^verbatim>\<open>playerInputQueues\<close> maps a player id to that player's queue, and a queue maps a step to
  the list of the inputs received for it, in the order of their arrival.
\<close>

type_synonym inputQueue = "(nat \<times> InputDescriptor list) list"

text \<open>
  Modelled from the spec: \<^verbatim>\<open>NetworkTransmitter\<close>, which is not among the sources. It
  "buffers a sequence of (eventName, payload) tuples": \<^verbatim>\<open>addNetworkedEvent\<close> appends one.
  The events of a world update are the sync header, with the step and the full-update flag,
  and object updates, with the step and the instance to serialize.
\<close>

datatype networkedEvent = SyncHeader nat bool | ObjectUpdate nat Serializable

definition addNetworkedEvent :: "networkedEvent list \<Rightarrow> networkedEvent \<Rightarrow> networkedEvent list" where
  "addNetworkedEvent transmitter ev = transmitter @ [ev]"

text \<open>
  \<^verbatim>\<open>objMemory\<close> maps the id of an object to the buffer last sent for it. A game object on
  the server is serializable and is in a room.
\<close>

record NetworkedObject = GameObject +
  serializable :: Serializable

text \<open>
  A room as \<^verbatim>\<open>createRoom\<close> and \<^verbatim>\<open>assignPlayerToRoom\<close> leave it (a missing
  \<^verbatim>\<open>requestFullSync\<close> is falsy), and an entry of \<^verbatim>\<open>connectedPlayers\<close> as
  \<^verbatim>\<open>onPlayerConnected\<close> makes it: its \<^verbatim>\<open>state\<close> is \<^verbatim>\<open>'new'\<close> until a world update
  has been built for it, then \<^verbatim>\<open>'synced'\<close>. The socket of a player is known by its id, the
  key of the entry.
\<close>

record Room =
  syncCounter :: nat
  requestImmediateSync :: bool
  requestFullSync :: bool

datatype connectionState = New | Synced

record ConnectedPlayer =
  playerState :: connectionState
  playerRoom :: string

text \<open>
  The server: the game engine, the input queues, the object memory, the transmitter, the
  rooms and the connected players in the order of their creation, the options
  \<^verbatim>\<open>updateRate\<close> and \<^verbatim>\<open>fullSyncRate\<close>, and the \<^verbatim>\<open>worldUpdate\<close> messages emitted so
  far, each with the id of its socket.
\<close>

record 'o ServerEngine =
  gameEngine :: "'o GameEngine"
  playerInputQueues :: "(nat \<times> inputQueue) list"
  objMemory :: "(nat \<times> 8 word list) list"
  networkTransmitter :: "networkedEvent list"
  rooms :: "(string \<times> Room) list"
  connectedPlayers :: "(string \<times> ConnectedPlayer) list"
  updateRate :: nat
  fullSyncRate :: nat
  worldUpdates :: "(string \<times> 8 word list) list"

text \<open>
  \<^verbatim>\<open>queueInputForPlayer(data, playerId)\<close>: a missing queue and a missing list are created
  empty, then the input is pushed onto the list of its step.
\<close>

definition queueInputForPlayer :: "'o ServerEngine \<Rightarrow> InputDescriptor \<Rightarrow> nat \<Rightarrow> 'o ServerEngine" where
  "queueInputForPlayer s data pid =
     (let queue = (case map_of (playerInputQueues s) pid of None \<Rightarrow> [] | Some q \<Rightarrow> q);
          inputs = (case map_of queue (step data) of None \<Rightarrow> [] | Some b \<Rightarrow> b);
          queue' = AList.update (step data) (inputs @ [data]) queue
      in s\<lparr>playerInputQueues := AList.update pid queue' (playerInputQueues s)\<rparr>)"

text \<open>
  The body of the loop over the players in \<^verbatim>\<open>step()\<close>, for the queue of one player.
  \<^verbatim>\<open>Math.min.apply(null, queueSteps)\<close> is the least key. The list found under the least key
  is dispatched input by input, in the order of the list, and the key is deleted. (The least
  key is a key of the queue, so the lookup never misses.)
\<close>

definition dispatchInput :: "nat \<Rightarrow> InputDescriptor \<Rightarrow> effect list" where
  "dispatchInput pid inp =
     [Emit_server_processInput inp pid, Emit_processInput inp pid, Call_processInput inp pid True]"

definition replayOldestStep :: "nat \<Rightarrow> nat \<Rightarrow> inputQueue \<Rightarrow> effect list \<times> inputQueue" where
  "replayOldestStep currentStep pid inputQueue =
     (let queueSteps = map fst inputQueue
      in if queueSteps \<noteq> [] \<and> Min (set queueSteps) \<le> currentStep
         then (let minStep = Min (set queueSteps);
                   inputs = (case map_of inputQueue minStep of None \<Rightarrow> [] | Some b \<Rightarrow> b)
               in (concat (map (dispatchInput pid) inputs), AList.delete minStep inputQueue))
         else ([], inputQueue))"

definition replayForPlayer :: "nat \<Rightarrow> 'o ServerEngine \<Rightarrow> 'o ServerEngine" where
  "replayForPlayer pid s =
     (case map_of (playerInputQueues s) pid of
        None \<Rightarrow> s
      | Some inputQueue \<Rightarrow>
          (case replayOldestStep (stepCount (world (gameEngine s))) pid inputQueue of
             (dispatched, inputQueue') \<Rightarrow>
               s\<lparr>gameEngine := (gameEngine s)\<lparr>effects := effects (gameEngine s) @ dispatched\<rparr>,
                 playerInputQueues := AList.update pid inputQueue' (playerInputQueues s)\<rparr>))"

text \<open>
  \<^verbatim>\<open>for (let playerIdStr in this.playerInputQueues)\<close>: the keys are integers, which a
  JavaScript object enumerates in ascending order.
\<close>

fun replayForPlayers :: "nat list \<Rightarrow> 'o ServerEngine \<Rightarrow> 'o ServerEngine" where
  "replayForPlayers [] s = s"
| "replayForPlayers (pid # pids) s = replayForPlayers pids (replayForPlayer pid s)"

subsection \<open>World updates\<close>


text \<open>\<^verbatim>\<open>Utils.arrayBuffersEqual(buf1, buf2)\<close>: equal lengths and equal bytes.\<close>

definition arrayBuffersEqual :: "8 word list \<Rightarrow> 8 word list \<Rightarrow> bool" where
  "arrayBuffersEqual buf1 buf2 = (length buf1 = length buf2 \<and> list_all2 (=) buf1 buf2)"

text \<open>
  The loop of \<^verbatim>\<open>serializeUpdate\<close> over the objects of the room, for the ids still to do.
  The state is the object memory and the events buffered in the transmitter; an exception
  leaves the loop with the state reached.
\<close>

fun serializeObjects :: "(8 word list \<Rightarrow> error + Serializable) \<Rightarrow> (Serializable \<Rightarrow> Serializable)
    \<Rightarrow> (nat \<times> NetworkedObject) list \<Rightarrow> nat \<Rightarrow> bool \<Rightarrow> nat list
    \<Rightarrow> (nat \<times> 8 word list) list \<times> networkedEvent list
    \<Rightarrow> (error + unit) \<times> (nat \<times> 8 word list) list \<times> networkedEvent list" where
  "serializeObjects deserialize newInstance objs currentStep diffUpdate [] (memory, events) =
     (Inr (), (memory, events))"
| "serializeObjects deserialize newInstance objs currentStep diffUpdate (ident # rest) (memory, events) =
     (case map_of objs ident of
        None \<Rightarrow> (Inl (TypeError ''cannot read properties of undefined''), (memory, events))
      | Some obj \<Rightarrow>
          (let prevObject = map_of memory ident
           in if diffUpdate
              then
                (case serialize (serializable obj)
                        \<lparr>dataBuffer = None, bufferOffset = None, dry = None\<rparr> of
                   Inl err \<Rightarrow> (Inl err, (memory, events))
                 | Inr (None, n) \<Rightarrow>
                     (Inl (TypeError ''cannot read properties of undefined''), (memory, events))
                 | Inr (Some buffer, n) \<Rightarrow>
                     if (case prevObject of None \<Rightarrow> False
                         | Some prev \<Rightarrow> arrayBuffersEqual buffer prev)
                     then serializeObjects deserialize newInstance objs currentStep diffUpdate rest
                            (memory, events)
                     else
                       (let memory' = AList.update ident buffer memory
                        in case prunedStringsClone deserialize newInstance (serializable obj)
                                  prevObject of
                             Inl err \<Rightarrow> (Inl err, (memory', events))
                           | Inr obj' \<Rightarrow>
                               serializeObjects deserialize newInstance objs currentStep
                                 diffUpdate rest
                                 (memory', addNetworkedEvent events
                                    (ObjectUpdate currentStep obj'))))
              else serializeObjects deserialize newInstance objs currentStep diffUpdate rest
                     (memory, addNetworkedEvent events
                        (ObjectUpdate currentStep (serializable obj)))))"

text \<open>
  \<^verbatim>\<open>serializeUpdate(roomName, options)\<close> up to the call of
  \<^verbatim>\<open>networkTransmitter.serializePayload()\<close>, which is not among the sources: the sync
  header, then the objects of the room in the order of their ids.
\<close>

definition serializeUpdate :: "(8 word list \<Rightarrow> error + Serializable) \<Rightarrow> (Serializable \<Rightarrow> Serializable)
    \<Rightarrow> NetworkedObject ServerEngine \<Rightarrow> string \<Rightarrow> bool
    \<Rightarrow> (error + unit) \<times> NetworkedObject ServerEngine" where
  "serializeUpdate deserialize newInstance s room diffUpdate =
     (let w = world (gameEngine s);
          header = addNetworkedEvent (networkTransmitter s)
                     (SyncHeader (stepCount w) (\<not> diffUpdate));
          roomObjects = filter (\<lambda>ident. case map_of (objects w) ident of
                                  None \<Rightarrow> False | Some obj \<Rightarrow> roomName obj = Some room)
                          (sort (remdups (map fst (objects w))))
      in case serializeObjects deserialize newInstance (objects w) (stepCount w) diffUpdate
                roomObjects (objMemory s, header) of
           (res, (memory, events)) \<Rightarrow> (res, s\<lparr>objMemory := memory, networkTransmitter := events\<rparr>))"

text \<open>
  \<^verbatim>\<open>syncStateToClients(roomName)\<close>. The room is synchronised if it asked for it or if
  the step counter is a multiple of \<^verbatim>\<open>updateRate\<close> (\<^verbatim>\<open>n % 0\<close> is \<^verbatim>\<open>NaN\<close>, which equals
  nothing). The new players of the room become synced and make the update a full one, as do
  every \<^verbatim>\<open>fullSyncRate\<close>-th update of the room and a request of the room; the counter of
  the room is incremented in any case. \<^verbatim>\<open>serializeUpdate\<close> then fills the transmitter and
  ends with \<^verbatim>\<open>networkTransmitter.serializePayload()\<close>, which is not among the sources and
  is a parameter here: it gives the payload or raises. The payload is emitted to the sockets
  of the room, and the request flags are cleared. An exception leaves the method at once,
  with the state reached.

  Modelled from the spec: \<^verbatim>\<open>clearPayload()\<close> "resets the buffer".
\<close>

definition syncStateToClients :: "(8 word list \<Rightarrow> error + Serializable)
    \<Rightarrow> (Serializable \<Rightarrow> Serializable) \<Rightarrow> (networkedEvent list \<Rightarrow> error + 8 word list)
    \<Rightarrow> NetworkedObject ServerEngine \<Rightarrow> string
    \<Rightarrow> (error + unit) \<times> NetworkedObject ServerEngine" where
  "syncStateToClients deserialize newInstance serializePayload s room =
     (case map_of (rooms s) room of
        None \<Rightarrow> (Inl (TypeError ''cannot read properties of undefined''), s)
      | Some r \<Rightarrow>
          if requestImmediateSync r
             \<or> (updateRate s \<noteq> 0 \<and> stepCount (world (gameEngine s)) mod updateRate s = 0)
          then
            (let roomPlayers = map fst (filter (\<lambda>(socketId, player). playerRoom player = room)
                                          (connectedPlayers s));
                 newPlayers = filter (\<lambda>(socketId, player). playerRoom player = room
                                        \<and> playerState player = New) (connectedPlayers s);
                 players' = map (\<lambda>(socketId, player).
                                   if playerRoom player = room \<and> playerState player = New
                                   then (socketId, player\<lparr>playerState := Synced\<rparr>)
                                   else (socketId, player)) (connectedPlayers s);
                 diffUpdate = (newPlayers = []
                               \<and> \<not> ((fullSyncRate s \<noteq> 0 \<and> syncCounter r mod fullSyncRate s = 0)
                                    \<or> requestFullSync r));
                 r' = r\<lparr>syncCounter := syncCounter r + 1\<rparr>;
                 s1 = s\<lparr>connectedPlayers := players', rooms := AList.update room r' (rooms s)\<rparr>
             in case serializeUpdate deserialize newInstance s1 room diffUpdate of
                  (Inl err, s2) \<Rightarrow> (Inl err, s2)
                | (Inr u, s2) \<Rightarrow>
                    (case serializePayload (networkTransmitter s2) of
                       Inl err \<Rightarrow> (Inl err, s2)
                     | Inr payload \<Rightarrow>
                         (Inr (),
                          s2\<lparr>worldUpdates := worldUpdates s2
                                @ map (\<lambda>socketId. (socketId, payload)) roomPlayers,
                             networkTransmitter := [],
                             rooms := AList.update room
                                        (r'\<lparr>requestImmediateSync := False,
                                            requestFullSync := False\<rparr>) (rooms s2)\<rparr>)))
          else (Inr (), s))"

text \<open>
  \<^verbatim>\<open>Object.keys(this.rooms).map(this.syncStateToClients.bind(this))\<close>: the rooms one after
  the other, in the order of their creation (a room name such as \<^verbatim>\<open>/lobby\<close> is no integer
  key), up to the first exception.
\<close>

fun syncRooms :: "(8 word list \<Rightarrow> error + Serializable)
    \<Rightarrow> (Serializable \<Rightarrow> Serializable) \<Rightarrow> (networkedEvent list \<Rightarrow> error + 8 word list)
    \<Rightarrow> string list \<Rightarrow> NetworkedObject ServerEngine
    \<Rightarrow> (error + unit) \<times> NetworkedObject ServerEngine" where
  "syncRooms deserialize newInstance serializePayload [] s = (Inr (), s)"
| "syncRooms deserialize newInstance serializePayload (room # names) s =
     (case syncStateToClients deserialize newInstance serializePayload s room of
        (Inl err, s') \<Rightarrow> (Inl err, s')
      | (Inr u, s') \<Rightarrow> syncRooms deserialize newInstance serializePayload names s')"

text \<open>
  \<^verbatim>\<open>ServerEngine.step()\<close>: the pre-step event, the replay of the oldest step of every
  player, the step of the game engine, the synchronisation of every room, the removal from
  the object memory of the objects that are no longer in the world, and the post-step event.
  An exception of the synchronisation leaves the method: the memory is not pruned and the
  post-step event is not emitted. The trace and \<^verbatim>\<open>serverTime\<close>, which the game engine does
  not read, are left out.
\<close>

definition ServerEngine_step :: "(8 word list \<Rightarrow> error + Serializable)
    \<Rightarrow> (Serializable \<Rightarrow> Serializable) \<Rightarrow> (networkedEvent list \<Rightarrow> error + 8 word list)
    \<Rightarrow> NetworkedObject ServerEngine \<Rightarrow> (error + unit) \<times> NetworkedObject ServerEngine" where
  "ServerEngine_step deserialize newInstance serializePayload s =
     (let ge0 = (gameEngine s)\<lparr>effects := effects (gameEngine s)
                   @ [Emit_server_preStep (stepCount (world (gameEngine s)) + 1)]\<rparr>;
          s1 = replayForPlayers (sort (remdups (map fst (playerInputQueues s))))
                 (s\<lparr>gameEngine := ge0\<rparr>)
      in case GameEngine_step (gameEngine s1) (Some False) None False of
           (Inl err, ge) \<Rightarrow> (Inl err, s1\<lparr>gameEngine := ge\<rparr>)
         | (Inr u, ge) \<Rightarrow>
             (case syncRooms deserialize newInstance serializePayload
                     (remdups (map fst (rooms s1))) (s1\<lparr>gameEngine := ge\<rparr>) of
                (Inl err, s2) \<Rightarrow> (Inl err, s2)
              | (Inr u', s2) \<Rightarrow>
                  (Inr (),
                   s2\<lparr>objMemory := filter (\<lambda>(ident, buffer).
                                      map_of (objects (world (gameEngine s2))) ident \<noteq> None)
                                    (objMemory s2),
                      gameEngine := (gameEngine s2)\<lparr>effects := effects (gameEngine s2)
                        @ [Emit_server_postStep (stepCount (world (gameEngine s2)))]\<rparr>\<rparr>)))"

text \<open>
  What happens to a server: an input arrives from the socket of a player
  (\<^verbatim>\<open>onReceivedInput\<close> queues it), or the scheduler ticks (\<^verbatim>\<open>step\<close>). The scheduler calls
  \<^verbatim>\<open>step\<close> unguarded and arms its next tick after the call, so an exception of \<^verbatim>\<open>step\<close>
  ends the run: \<^verbatim>\<open>runServer\<close> gives the outcome and the state reached, \<^verbatim>\<open>handledEvents\<close>
  the events that the run got to, the tick that raised included.
\<close>

datatype serverEvent = ReceiveInput InputDescriptor nat | Tick

fun runServer :: "(8 word list \<Rightarrow> error + Serializable)
    \<Rightarrow> (Serializable \<Rightarrow> Serializable) \<Rightarrow> (networkedEvent list \<Rightarrow> error + 8 word list)
    \<Rightarrow> serverEvent list \<Rightarrow> NetworkedObject ServerEngine
    \<Rightarrow> (error + unit) \<times> NetworkedObject ServerEngine" where
  "runServer deserialize newInstance serializePayload [] s = (Inr (), s)"
| "runServer deserialize newInstance serializePayload (ReceiveInput data pid # evs) s =
     runServer deserialize newInstance serializePayload evs (queueInputForPlayer s data pid)"
| "runServer deserialize newInstance serializePayload (Tick # evs) s =
     (case ServerEngine_step deserialize newInstance serializePayload s of
        (Inl err, s') \<Rightarrow> (Inl err, s')
      | (Inr u, s') \<Rightarrow> runServer deserialize newInstance serializePayload evs s')"

fun handledEvents :: "(8 word list \<Rightarrow> error + Serializable)
    \<Rightarrow> (Serializable \<Rightarrow> Serializable) \<Rightarrow> (networkedEvent list \<Rightarrow> error + 8 word list)
    \<Rightarrow> serverEvent list \<Rightarrow> NetworkedObject ServerEngine \<Rightarrow> serverEvent list" where
  "handledEvents deserialize newInstance serializePayload [] s = []"
| "handledEvents deserialize newInstance serializePayload (ReceiveInput data pid # evs) s =
     ReceiveInput data pid
       # handledEvents deserialize newInstance serializePayload evs (queueInputForPlayer s data pid)"
| "handledEvents deserialize newInstance serializePayload (Tick # evs) s =
     (case ServerEngine_step deserialize newInstance serializePayload s of
        (Inl err, s') \<Rightarrow> [Tick]
      | (Inr u, s') \<Rightarrow> Tick # handledEvents deserialize newInstance serializePayload evs s')"

text \<open>The inputs of a player that a run received, and those handed to \<^verbatim>\<open>processInput\<close>.\<close>

fun receivedInputs :: "nat \<Rightarrow> serverEvent list \<Rightarrow> InputDescriptor list" where
  "receivedInputs pid [] = []"
| "receivedInputs pid (ReceiveInput data pid' # evs) =
     (if pid' = pid then data # receivedInputs pid evs else receivedInputs pid evs)"
| "receivedInputs pid (Tick # evs) = receivedInputs pid evs"

fun processedInputs :: "nat \<Rightarrow> effect list \<Rightarrow> InputDescriptor list" where
  "processedInputs pid [] = []"
| "processedInputs pid (Call_processInput inp pid' isServer # es) =
     (if pid' = pid then inp # processedInputs pid es else processedInputs pid es)"
| "processedInputs pid (e # es) = processedInputs pid es"

text \<open>The list queued for a player under a step; empty when there is none.\<close>

definition queuedInputs :: "'o ServerEngine \<Rightarrow> nat \<Rightarrow> nat \<Rightarrow> InputDescriptor list" where
  "queuedInputs s pid k =
     (case map_of (playerInputQueues s) pid of
        None \<Rightarrow> []
      | Some q \<Rightarrow> (case map_of q k of None \<Rightarrow> [] | Some b \<Rightarrow> b))"

text \<open>
  The keys of a player's queue, and the step that the next server step replays for the
  player: the least key, if the queue has a key and the least one is not ahead of the step
  counter.
\<close>

definition queuedSteps :: "'o ServerEngine \<Rightarrow> nat \<Rightarrow> nat set" where
  "queuedSteps s pid =
     (case map_of (playerInputQueues s) pid of None \<Rightarrow> {} | Some q \<Rightarrow> fst ` set q)"

definition oldestDueStep :: "'o ServerEngine \<Rightarrow> nat \<Rightarrow> nat option" where
  "oldestDueStep s pid =
     (case map_of (playerInputQueues s) pid of
        None \<Rightarrow> None
      | Some q \<Rightarrow>
          if map fst q \<noteq> [] \<and> Min (set (map fst q)) \<le> stepCount (world (gameEngine s))
          then Some (Min (set (map fst q))) else None)"

text \<open>
  The server as its constructor and \<^verbatim>\<open>start\<close> leave it, with the default options: the
  room \<^verbatim>\<open>/lobby\<close>, no player, no queue, step 0, nothing done yet.
\<close>

definition newServerEngine :: "'o ServerEngine" where
  "newServerEngine =
     \<lparr>gameEngine = \<lparr>world = \<lparr>stepCount = 0, playerCount = 0, idCount = 0, objects = []\<rparr>,
                     clientIDSpace = None, enginePlayerId = 0, physicsEngine = False,
                     ignorePhysics = False, effects = []\<rparr>,
      playerInputQueues = [], objMemory = [], networkTransmitter = [],
      rooms = [(''/lobby'', \<lparr>syncCounter = 0, requestImmediateSync = False,
                              requestFullSync = False\<rparr>)],
      connectedPlayers = [], updateRate = 6, fullSyncRate = 20, worldUpdates = []\<rparr>"

section \<open>ServerEngine: examples\<close>

text \<open>
  The server of the example for string pruning: the player of above is object 7 of the
  lobby, and a buffer has been sent for it before.
\<close>

definition pruningServer :: "NetworkedObject ServerEngine" where
  "pruningServer =
     \<lparr>gameEngine = \<lparr>world = \<lparr>stepCount = 12, playerCount = 1, idCount = 8,
                       objects = [(7, \<lparr>objId = 7, playerId = 1, inputId = 0,
                                       roomName = Some ''/lobby'', serializable = playerNow\<rparr>)]\<rparr>,
                     clientIDSpace = None, enginePlayerId = 0, physicsEngine = False,
                     ignorePhysics = False, effects = []\<rparr>,
      playerInputQueues = [], objMemory = [(7, [1, 2, 3])], networkTransmitter = [],
      rooms = [(''/lobby'', \<lparr>syncCounter = 3, requestImmediateSync = False,
                              requestFullSync = False\<rparr>)],
      connectedPlayers = [(''socket1'', \<lparr>playerState = Synced, playerRoom = ''/lobby''\<rparr>)],
      updateRate = 6, fullSyncRate = 20, worldUpdates = []\<rparr>"

text \<open>
  The same server one step earlier: step 12 is a multiple of \<^verbatim>\<open>updateRate\<close>, the player
  of the lobby is synced and the lobby has been synchronised 3 times, so the next step
  builds a diff update of the lobby.
\<close>

definition serverBeforeSync :: "NetworkedObject ServerEngine" where
  "serverBeforeSync =
     pruningServer\<lparr>gameEngine := (gameEngine pruningServer)
       \<lparr>world := (world (gameEngine pruningServer))\<lparr>stepCount := 11\<rparr>\<rparr>\<rparr>"

section \<open>ExtrapolateStrategy\<close>

text \<open>
  The state of the strategy that re-enactment reads and writes: the game engine (named
  \<open>gameEngine'\<close> here), the buffer \<^verbatim>\<open>recentInputs\<close> from steps to the inputs saved for
  them, and \<^verbatim>\<open>options.maxReEnactSteps\<close>.
\<close>

record 'o ExtrapolateStrategy =
  gameEngine' :: "'o GameEngine"
  recentInputs :: "(nat \<times> InputDescriptor list) list"
  maxReEnactSteps :: nat

text \<open>\<^verbatim>\<open>clientInputSave(inputEvent)\<close>, the listener on \<^verbatim>\<open>client__processInput\<close>.\<close>

definition clientInputSave :: "'o ExtrapolateStrategy \<Rightarrow> InputDescriptor \<Rightarrow> 'o ExtrapolateStrategy" where
  "clientInputSave st inp =
     (let saved = (case map_of (recentInputs st) (step inp) of None \<Rightarrow> [] | Some b \<Rightarrow> b)
      in st\<lparr>recentInputs := AList.update (step inp) (saved @ [inp]) (recentInputs st)\<rparr>)"










text \<open>
  The buffer as \<^verbatim>\<open>clientInputSave\<close> builds it: every list is non-empty and holds inputs of
  the step it is saved under.
\<close>

definition recentInputsSaved :: "(nat \<times> InputDescriptor list) list \<Rightarrow> bool" where
  "recentInputsSaved buffer = (\<forall>(k, b) \<in> set buffer. b \<noteq> [] \<and> (\<forall>i \<in> set b. step i = k))"



section \<open>MathUtils\<close>

text \<open>
  A JavaScript number is modelled as a real number: the arithmetic of the model is exact, and
  the non-finite values (\<^verbatim>\<open>Infinity\<close>, \<^verbatim>\<open>NaN\<close>) have no counterpart in it. The rounding of
  the operations is written out in the section on floating-point numbers below, for the
  property that is about it.
\<close>

definition interpolateDeltaWithWrapping :: "real \<Rightarrow> real \<Rightarrow> real \<Rightarrow> real \<Rightarrow> real \<Rightarrow> real" where
  "interpolateDeltaWithWrapping start end' percent' wrapMin wrapMax =
     (let wrapTest = wrapMax - wrapMin;
          end'' = (if start - end' > wrapTest / 2 then end' + wrapTest else end');
          start' = (if \<not> (start - end' > wrapTest / 2) \<and> end' - start > wrapTest / 2
                    then start + wrapTest else start)
      in (end'' - start') * percent')"

section \<open>TwoVector\<close>

text \<open>The fields \<^verbatim>\<open>x\<close> and \<^verbatim>\<open>y\<close> are named \<open>vx\<close> and \<open>vy\<close>.\<close>

record TwoVector =
  vx :: real
  vy :: real

definition subtract :: "TwoVector \<Rightarrow> TwoVector \<Rightarrow> TwoVector" where
  "subtract this other = \<lparr>vx = vx this - vx other, vy = vy this - vy other\<rparr>"

definition add :: "TwoVector \<Rightarrow> TwoVector \<Rightarrow> TwoVector" where
  "add this other = \<lparr>vx = vx this + vx other, vy = vy this + vy other\<rparr>"

definition multiplyScalar :: "TwoVector \<Rightarrow> real \<Rightarrow> TwoVector" where
  "multiplyScalar this s = \<lparr>vx = vx this * s, vy = vy this * s\<rparr>"

definition length_vec :: "TwoVector \<Rightarrow> real" where
  "length_vec this = sqrt (vx this * vx this + vy this * vy this)"

text \<open>
  Bending options. \<^verbatim>\<open>BendOption\<close> is \<^verbatim>\<open>{ percent, min?, max? }\<close>; the fields \<^verbatim>\<open>min\<close> and
  \<^verbatim>\<open>max\<close> are named \<open>min_opt\<close> and \<open>max_opt\<close>. \<^verbatim>\<open>IncrementalBendOption\<close> adds
  \<^verbatim>\<open>increments\<close>.
\<close>

record BendOption =
  percent :: real
  min_opt :: "real option"
  max_opt :: "real option"

record IncrementalBendOption = BendOption +
  increments :: nat

text \<open>
  \<^verbatim>\<open>Object.assign(target, source)\<close> for a bending override: an absent override changes
  nothing, a present one overwrites \<^verbatim>\<open>percent\<close> and those of \<^verbatim>\<open>min\<close>, \<^verbatim>\<open>max\<close> it has.
\<close>

definition assignBend :: "IncrementalBendOption \<Rightarrow> BendOption option \<Rightarrow> IncrementalBendOption" where
  "assignBend target source =
     (case source of
        None \<Rightarrow> target
      | Some b \<Rightarrow> target\<lparr>percent := percent b,
                         min_opt := (case min_opt b of None \<Rightarrow> min_opt target | Some m \<Rightarrow> Some m),
                         max_opt := (case max_opt b of None \<Rightarrow> max_opt target | Some m \<Rightarrow> Some m)\<rparr>)"

text \<open>
  \<^verbatim>\<open>this.getBendingDelta(target, options)\<close>. The division \<^verbatim>\<open>1 / options.increments\<close> is
  finite only for \<^verbatim>\<open>increments\<close> other than 0; the callers below check that.
\<close>

definition getBendingDelta :: "TwoVector \<Rightarrow> TwoVector \<Rightarrow> IncrementalBendOption \<Rightarrow> TwoVector" where
  "getBendingDelta this target opts =
     (let increment = multiplyScalar (subtract target this) (percent opts)
      in if (case max_opt opts of None \<Rightarrow> False | Some m \<Rightarrow> length_vec increment > m)
            \<or> (case min_opt opts of None \<Rightarrow> False | Some m \<Rightarrow> length_vec increment < m)
         then \<lparr>vx = 0, vy = 0\<rparr>
         else multiplyScalar increment (1 / real (increments opts)))"

section \<open>PhysicalObject2D\<close>

text \<open>
  \<open>PhysicalState\<close> has the fields of a \<^verbatim>\<open>PhysicalObject2D\<close> that \<^verbatim>\<open>syncTo\<close> copies. A saved
  copy and a bending target are instances made by the constructor and filled by
  \<^verbatim>\<open>syncTo\<close>, and only these fields of them are read afterwards.
\<close>

record PhysicalState = GameObject +
  mass :: real
  position :: TwoVector
  angle :: real
  velocity :: TwoVector
  angularVelocity :: real

text \<open>
  The value of the getter \<^verbatim>\<open>bending\<close>: optional overrides per field, with the
  \<^verbatim>\<open>Local\<close> variants used for objects of the local player.
\<close>

record BendingOptions =
  bend_position :: "BendOption option"
  bend_velocity :: "BendOption option"
  bend_angle :: "BendOption option"
  bend_angularVelocity :: "BendOption option"
  bend_positionLocal :: "BendOption option"
  bend_velocityLocal :: "BendOption option"
  bend_angleLocal :: "BendOption option"
  bend_angularVelocityLocal :: "BendOption option"

text \<open>The getter of \<^verbatim>\<open>PhysicalObject2D\<close> itself returns the empty object.\<close>

definition noBending :: BendingOptions where
  "noBending = \<lparr>bend_position = None, bend_velocity = None, bend_angle = None,
     bend_angularVelocity = None, bend_positionLocal = None, bend_velocityLocal = None,
     bend_angleLocal = None, bend_angularVelocityLocal = None\<rparr>"

record PhysicalObject2D = PhysicalState +
  bending :: BendingOptions
  savedCopy :: "PhysicalState option"
  bendingTarget :: "PhysicalState option"
  bendingIncrements :: nat
  bendingPositionDelta :: "TwoVector option"
  bendingVelocityDelta :: "TwoVector option"
  bendingAVDelta :: real
  bendingAngleDelta :: real
  bendingOptions :: "IncrementalBendOption option"

text \<open>
  \<^verbatim>\<open>new this.constructor()\<close> followed by \<^verbatim>\<open>syncTo(other)\<close>: the fresh instance has the
  defaults of the constructors, and \<^verbatim>\<open>syncTo\<close> copies the scalar fields of the netScheme
  (\<^verbatim>\<open>id\<close>, \<^verbatim>\<open>playerId\<close>, \<^verbatim>\<open>mass\<close>, \<^verbatim>\<open>angle\<close>, \<^verbatim>\<open>angularVelocity\<close>), then position,
  angle, angular velocity and, unless \<^verbatim>\<open>options.keepVelocity\<close>, velocity.
\<close>

definition syncTo :: "'a PhysicalState_scheme \<Rightarrow> 'b PhysicalState_scheme \<Rightarrow> bool
    \<Rightarrow> 'a PhysicalState_scheme" where
  "syncTo this other keepVelocity =
     this\<lparr>objId := objId other, playerId := playerId other, mass := mass other,
          position := position other, angle := angle other,
          angularVelocity := angularVelocity other,
          velocity := (if keepVelocity then velocity this else velocity other)\<rparr>"

definition newPhysicalState :: PhysicalState where
  "newPhysicalState = \<lparr>objId = 0, playerId = 0, inputId = 0, roomName = None, mass = 0,
     position = \<lparr>vx = 0, vy = 0\<rparr>, angle = 0, velocity = \<lparr>vx = 0, vy = 0\<rparr>,
     angularVelocity = 0\<rparr>"

definition snapshot :: "'a PhysicalState_scheme \<Rightarrow> PhysicalState" where
  "snapshot other = syncTo newPhysicalState other False"

text \<open>\<^verbatim>\<open>saveState(other?)\<close>: the saved copy is a snapshot of \<^verbatim>\<open>other\<close>, or of the object itself.\<close>

definition saveState :: "PhysicalObject2D \<Rightarrow> PhysicalState option \<Rightarrow> PhysicalObject2D" where
  "saveState this other =
     this\<lparr>savedCopy := Some (case other of None \<Rightarrow> snapshot this | Some ob \<Rightarrow> snapshot ob)\<rparr>"

text \<open>
  \<^verbatim>\<open>bendToCurrent(fromSource, percent, worldSettings, isLocal, increments)\<close>; the argument
  \<^verbatim>\<open>worldSettings\<close> is not used by the method. With \<^verbatim>\<open>increments\<close> equal to 0 the source
  divides by zero and stores non-finite numbers, which the model does not have: the result
  is \<open>None\<close> then.
\<close>

definition bendToCurrent :: "PhysicalObject2D \<Rightarrow> 'a PhysicalState_scheme \<Rightarrow> real \<Rightarrow> bool \<Rightarrow> nat
    \<Rightarrow> PhysicalObject2D option" where
  "bendToCurrent this fromSource percent' isLocal increments' =
     (if increments' = 0 then None
      else
        let bending' = \<lparr>percent = percent', min_opt = None, max_opt = None,
                         increments = increments'\<rparr>;
            positionBending = assignBend bending' (bend_position (bending this));
            velocityBending = assignBend bending' (bend_velocity (bending this));
            angleBending = assignBend bending' (bend_angle (bending this));
            avBending = assignBend bending' (bend_angularVelocity (bending this));
            positionBending = (if isLocal
               then assignBend positionBending (bend_positionLocal (bending this))
               else positionBending);
            velocityBending = (if isLocal
               then assignBend velocityBending (bend_velocityLocal (bending this))
               else velocityBending);
            angleBending = (if isLocal
               then assignBend angleBending (bend_angleLocal (bending this))
               else angleBending);
            avBending = (if isLocal
               then assignBend avBending (bend_angularVelocityLocal (bending this))
               else avBending);
            incrementScale = percent' / real increments';
            positionDelta = getBendingDelta (position fromSource) (position this) positionBending;
            velocityDelta = getBendingDelta (velocity fromSource) (velocity this) velocityBending;
            avDelta = (angularVelocity this - angularVelocity fromSource) * incrementScale
                        * percent avBending;
            angleDelta = interpolateDeltaWithWrapping (angle fromSource) (angle this)
                           (percent angleBending) 0 (2 * pi) / real increments';
            target = snapshot this
        in Some (this\<lparr>bendingPositionDelta := Some positionDelta,
                       bendingVelocityDelta := Some velocityDelta,
                       bendingAVDelta := avDelta,
                       bendingAngleDelta := angleDelta,
                       bendingTarget := Some target,
                       position := position fromSource,
                       angle := angle fromSource,
                       angularVelocity := angularVelocity fromSource,
                       velocity := velocity fromSource,
                       bendingIncrements := increments',
                       bendingOptions := Some bending'\<rparr>))"

text \<open>
  \<^verbatim>\<open>bendFromSavedToCurrentState\<close> of \<^verbatim>\<open>GameObject\<close>: bend from the saved copy, if there is
  one, and drop it.
\<close>

definition bendFromSavedToCurrentState :: "PhysicalObject2D \<Rightarrow> real \<Rightarrow> bool \<Rightarrow> nat
    \<Rightarrow> PhysicalObject2D option" where
  "bendFromSavedToCurrentState this percent' isLocal increments' =
     (case savedCopy this of
        None \<Rightarrow> Some (this\<lparr>savedCopy := None\<rparr>)
      | Some saved \<Rightarrow>
          (case bendToCurrent this saved percent' isLocal increments' of
             None \<Rightarrow> None
           | Some this' \<Rightarrow> Some (this'\<lparr>savedCopy := None\<rparr>)))"

text \<open>
  The argument of \<^verbatim>\<open>applyIncrementalBending(stepDesc)\<close>: it may be \<^verbatim>\<open>undefined\<close>, and its
  \<^verbatim>\<open>dt\<close> may be absent; an absent or zero \<^verbatim>\<open>dt\<close> is falsy.
\<close>

record stepDesc =
  dt :: "real option"

definition timeFactorOf :: "stepDesc option \<Rightarrow> real" where
  "timeFactorOf sd =
     (case sd of
        None \<Rightarrow> 1
      | Some d \<Rightarrow> (case dt d of None \<Rightarrow> 1
                   | Some t \<Rightarrow> if t = 0 then 1 else t / (1000 / 60)))"

text \<open>
  \<^verbatim>\<open>applyIncrementalBending(stepDesc)\<close>. The deltas are optional fields; calling
  \<^verbatim>\<open>clone\<close> on an absent one raises a TypeError.
\<close>

definition applyIncrementalBending :: "PhysicalObject2D \<Rightarrow> stepDesc option
    \<Rightarrow> error + PhysicalObject2D" where
  "applyIncrementalBending this sd =
     (if bendingIncrements this = 0 then Inr this
      else
        let timeFactor = timeFactorOf sd
        in case bendingPositionDelta this of
             None \<Rightarrow> Inl (TypeError ''bendingPositionDelta is undefined'')
           | Some pd \<Rightarrow>
               (case bendingVelocityDelta this of
                  None \<Rightarrow> Inl (TypeError ''bendingVelocityDelta is undefined'')
                | Some vd \<Rightarrow>
                    Inr (this\<lparr>position := add (position this) (multiplyScalar pd timeFactor),
                              velocity := add (velocity this) (multiplyScalar vd timeFactor),
                              angularVelocity := angularVelocity this
                                                   + bendingAVDelta this * timeFactor,
                              angle := angle this + bendingAngleDelta this * timeFactor,
                              bendingIncrements := bendingIncrements this - 1\<rparr>)))"

text \<open>\<open>n\<close> successive calls of \<^verbatim>\<open>applyIncrementalBending\<close>, stopping at the first exception.\<close>

fun applyIncrementalBendingTimes :: "nat \<Rightarrow> stepDesc option \<Rightarrow> PhysicalObject2D
    \<Rightarrow> error + PhysicalObject2D" where
  "applyIncrementalBendingTimes 0 sd this = Inr this"
| "applyIncrementalBendingTimes (Suc n) sd this =
     (case applyIncrementalBending this sd of
        Inl e \<Rightarrow> Inl e
      | Inr this' \<Rightarrow> applyIncrementalBendingTimes n sd this')"

text \<open>
  The bending of one sync: \<^verbatim>\<open>bendToCurrent\<close>, then as many calls of
  \<^verbatim>\<open>applyIncrementalBending\<close> as there are increments. \<open>None\<close> stands for a run that
  left the model (zero increments) or raised an exception.
\<close>

definition bendThenApplyAll :: "PhysicalObject2D \<Rightarrow> 'a PhysicalState_scheme \<Rightarrow> real \<Rightarrow> bool \<Rightarrow> nat
    \<Rightarrow> stepDesc option \<Rightarrow> PhysicalObject2D option" where
  "bendThenApplyAll this fromSource percent' isLocal increments' sd =
     (case bendToCurrent this fromSource percent' isLocal increments' of
        None \<Rightarrow> None
      | Some this' \<Rightarrow>
          (case applyIncrementalBendingTimes increments' sd this' of
             Inl e \<Rightarrow> None
           | Inr final \<Rightarrow> Some final))"

text \<open>
  The objects of scenario S5: the object after re-enactment, at position \<open>(10, 0)\<close>, and its
  saved state, at position \<open>(0, 0)\<close>.
\<close>

definition scenarioS5_saved :: PhysicalState where
  "scenarioS5_saved = newPhysicalState\<lparr>objId := 7\<rparr>"

definition scenarioS5_current :: PhysicalObject2D where
  "scenarioS5_current = \<lparr>objId = 7, playerId = 0, inputId = 0, roomName = None, mass = 0,
     position = \<lparr>vx = 10, vy = 0\<rparr>, angle = 0, velocity = \<lparr>vx = 0, vy = 0\<rparr>,
     angularVelocity = 0, bending = noBending, savedCopy = None, bendingTarget = None,
     bendingIncrements = 0, bendingPositionDelta = None, bendingVelocityDelta = None,
     bendingAVDelta = 0, bendingAngleDelta = 0, bendingOptions = None\<rparr>"


section \<open>Floating-point numbers\<close>






section \<open>Bending in floating-point arithmetic\<close>

text \<open>
  The methods of bending once more, with the rounding of every arithmetic operation written
  out: \<open>fl\<close> takes the exact result of an operation to the number that the operation
  returns, \<open>binary64\<close> for the code as it runs. \<^verbatim>\<open>Math.PI\<close> is the number nearest to
  \<open>\<pi>\<close>. With the identity for \<open>fl\<close> these are the definitions of above.
\<close>

definition subtract_fl :: "(real \<Rightarrow> real) \<Rightarrow> TwoVector \<Rightarrow> TwoVector \<Rightarrow> TwoVector" where
  "subtract_fl fl this other = \<lparr>vx = fl (vx this - vx other), vy = fl (vy this - vy other)\<rparr>"

definition add_fl :: "(real \<Rightarrow> real) \<Rightarrow> TwoVector \<Rightarrow> TwoVector \<Rightarrow> TwoVector" where
  "add_fl fl this other = \<lparr>vx = fl (vx this + vx other), vy = fl (vy this + vy other)\<rparr>"

definition multiplyScalar_fl :: "(real \<Rightarrow> real) \<Rightarrow> TwoVector \<Rightarrow> real \<Rightarrow> TwoVector" where
  "multiplyScalar_fl fl this s = \<lparr>vx = fl (vx this * s), vy = fl (vy this * s)\<rparr>"

definition length_fl :: "(real \<Rightarrow> real) \<Rightarrow> TwoVector \<Rightarrow> real" where
  "length_fl fl this = fl (sqrt (fl (fl (vx this * vx this) + fl (vy this * vy this))))"

text \<open>
  The test of \<^verbatim>\<open>getBendingDelta\<close> on the increment before its division: longer than
  \<^verbatim>\<open>max\<close> or shorter than \<^verbatim>\<open>min\<close>, for those of the two that the options have.
\<close>

definition outsideLimits :: "(real \<Rightarrow> real) \<Rightarrow> TwoVector \<Rightarrow> IncrementalBendOption \<Rightarrow> bool" where
  "outsideLimits fl increment opts \<longleftrightarrow>
     (case max_opt opts of None \<Rightarrow> False | Some m \<Rightarrow> length_fl fl increment > m)
     \<or> (case min_opt opts of None \<Rightarrow> False | Some m \<Rightarrow> length_fl fl increment < m)"

definition getBendingDelta_fl :: "(real \<Rightarrow> real) \<Rightarrow> TwoVector \<Rightarrow> TwoVector \<Rightarrow> IncrementalBendOption
    \<Rightarrow> TwoVector" where
  "getBendingDelta_fl fl this target opts =
     (let increment = multiplyScalar_fl fl (subtract_fl fl target this) (percent opts)
      in if outsideLimits fl increment opts
         then \<lparr>vx = 0, vy = 0\<rparr>
         else multiplyScalar_fl fl increment (fl (1 / real (increments opts))))"

text \<open>
  \<^verbatim>\<open>interpolateDeltaWithWrapping\<close>: \<open>wrappedEnd\<close> and \<open>wrappedStart\<close> are the values of
  \<^verbatim>\<open>end\<close> and \<^verbatim>\<open>start\<close> after the two tests, one of which may have added the length of
  the range.
\<close>

definition wrappedEnd :: "(real \<Rightarrow> real) \<Rightarrow> real \<Rightarrow> real \<Rightarrow> real \<Rightarrow> real \<Rightarrow> real" where
  "wrappedEnd fl start end' wrapMin wrapMax =
     (let wrapTest = fl (wrapMax - wrapMin)
      in if fl (start - end') > fl (wrapTest / 2) then fl (end' + wrapTest) else end')"

definition wrappedStart :: "(real \<Rightarrow> real) \<Rightarrow> real \<Rightarrow> real \<Rightarrow> real \<Rightarrow> real \<Rightarrow> real" where
  "wrappedStart fl start end' wrapMin wrapMax =
     (let wrapTest = fl (wrapMax - wrapMin)
      in if \<not> fl (start - end') > fl (wrapTest / 2) \<and> fl (end' - start) > fl (wrapTest / 2)
         then fl (start + wrapTest) else start)"

definition interpolateDeltaWithWrapping_fl :: "(real \<Rightarrow> real) \<Rightarrow> real \<Rightarrow> real \<Rightarrow> real \<Rightarrow> real \<Rightarrow> real
    \<Rightarrow> real" where
  "interpolateDeltaWithWrapping_fl fl start end' percent' wrapMin wrapMax =
     fl (fl (wrappedEnd fl start end' wrapMin wrapMax - wrappedStart fl start end' wrapMin wrapMax)
           * percent')"

text \<open>
  The options of one field in \<^verbatim>\<open>bendToCurrent\<close>: the override of the object is assigned
  over the arguments, and for an object of the local player its local override over that.
\<close>

definition fieldBending :: "IncrementalBendOption \<Rightarrow> BendOption option \<Rightarrow> BendOption option \<Rightarrow> bool
    \<Rightarrow> IncrementalBendOption" where
  "fieldBending bending' override overrideLocal isLocal =
     (if isLocal then assignBend (assignBend bending' override) overrideLocal
      else assignBend bending' override)"

definition bendToCurrent_fl :: "(real \<Rightarrow> real) \<Rightarrow> PhysicalObject2D \<Rightarrow> 'a PhysicalState_scheme \<Rightarrow> real
    \<Rightarrow> bool \<Rightarrow> nat \<Rightarrow> PhysicalObject2D option" where
  "bendToCurrent_fl fl this fromSource percent' isLocal increments' =
     (if increments' = 0 then None
      else
        let bending' = \<lparr>percent = percent', min_opt = None, max_opt = None,
                         increments = increments'\<rparr>;
            positionBending = fieldBending bending' (bend_position (bending this))
                                (bend_positionLocal (bending this)) isLocal;
            velocityBending = fieldBending bending' (bend_velocity (bending this))
                                (bend_velocityLocal (bending this)) isLocal;
            angleBending = fieldBending bending' (bend_angle (bending this))
                             (bend_angleLocal (bending this)) isLocal;
            avBending = fieldBending bending' (bend_angularVelocity (bending this))
                          (bend_angularVelocityLocal (bending this)) isLocal;
            incrementScale = fl (percent' / real increments');
            positionDelta = getBendingDelta_fl fl (position fromSource) (position this)
                              positionBending;
            velocityDelta = getBendingDelta_fl fl (velocity fromSource) (velocity this)
                              velocityBending;
            avDelta = fl (fl (fl (angularVelocity this - angularVelocity fromSource)
                                * incrementScale) * percent avBending);
            angleDelta = fl (interpolateDeltaWithWrapping_fl fl (angle fromSource) (angle this)
                               (percent angleBending) 0 (fl (2 * fl pi)) / real increments');
            target = snapshot this
        in Some (this\<lparr>bendingPositionDelta := Some positionDelta,
                       bendingVelocityDelta := Some velocityDelta,
                       bendingAVDelta := avDelta,
                       bendingAngleDelta := angleDelta,
                       bendingTarget := Some target,
                       position := position fromSource,
                       angle := angle fromSource,
                       angularVelocity := angularVelocity fromSource,
                       velocity := velocity fromSource,
                       bendingIncrements := increments',
                       bendingOptions := Some bending'\<rparr>))"

definition timeFactorOf_fl :: "(real \<Rightarrow> real) \<Rightarrow> stepDesc option \<Rightarrow> real" where
  "timeFactorOf_fl fl sd =
     (case sd of
        None \<Rightarrow> 1
      | Some d \<Rightarrow> (case dt d of None \<Rightarrow> 1
                   | Some t \<Rightarrow> if t = 0 then 1 else fl (t / fl (1000 / 60))))"

definition applyIncrementalBending_fl :: "(real \<Rightarrow> real) \<Rightarrow> PhysicalObject2D \<Rightarrow> stepDesc option
    \<Rightarrow> error + PhysicalObject2D" where
  "applyIncrementalBending_fl fl this sd =
     (if bendingIncrements this = 0 then Inr this
      else
        let timeFactor = timeFactorOf_fl fl sd
        in case bendingPositionDelta this of
             None \<Rightarrow> Inl (TypeError ''bendingPositionDelta is undefined'')
           | Some pd \<Rightarrow>
               (case bendingVelocityDelta this of
                  None \<Rightarrow> Inl (TypeError ''bendingVelocityDelta is undefined'')
                | Some vd \<Rightarrow>
                    Inr (this\<lparr>position := add_fl fl (position this)
                                            (multiplyScalar_fl fl pd timeFactor),
                              velocity := add_fl fl (velocity this)
                                            (multiplyScalar_fl fl vd timeFactor),
                              angularVelocity := fl (angularVelocity this
                                                   + fl (bendingAVDelta this * timeFactor)),
                              angle := fl (angle this + fl (bendingAngleDelta this * timeFactor)),
                              bendingIncrements := bendingIncrements this - 1\<rparr>)))"

fun applyIncrementalBendingTimes_fl :: "(real \<Rightarrow> real) \<Rightarrow> nat \<Rightarrow> stepDesc option \<Rightarrow> PhysicalObject2D
    \<Rightarrow> error + PhysicalObject2D" where
  "applyIncrementalBendingTimes_fl fl 0 sd this = Inr this"
| "applyIncrementalBendingTimes_fl fl (Suc n) sd this =
     (case applyIncrementalBending_fl fl this sd of
        Inl e \<Rightarrow> Inl e
      | Inr this' \<Rightarrow> applyIncrementalBendingTimes_fl fl n sd this')"

definition bendThenApplyAll_fl :: "(real \<Rightarrow> real) \<Rightarrow> PhysicalObject2D \<Rightarrow> 'a PhysicalState_scheme \<Rightarrow> real
    \<Rightarrow> bool \<Rightarrow> nat \<Rightarrow> stepDesc option \<Rightarrow> PhysicalObject2D option" where
  "bendThenApplyAll_fl fl this fromSource percent' isLocal increments' sd =
     (case bendToCurrent_fl fl this fromSource percent' isLocal increments' of
        None \<Rightarrow> None
      | Some this' \<Rightarrow>
          (case applyIncrementalBendingTimes_fl fl increments' sd this' of
             Inl e \<Rightarrow> None
           | Inr final \<Rightarrow> Some final))"







section \<open>Properties of Utils.hashStr\<close>

text \<open>
  C10. With the default 8 bits (passed explicitly or left out) the class-id hash is the
  unsigned 32-bit hash reduced modulo \<open>2 ^ 8 - 1 = 255\<close>; it lies in the range 0 to 254, and
  the value 255 is never produced.
\<close>

theorem hashStr_8_range:
  "hashStr s (Some 8) = toUint32 (hashLoop 5381 s (length s)) mod 255
   \<and> hashStr s None = hashStr s (Some 8)
   \<and> hashStr s (Some 8) \<le> 254
   \<and> hashStr s (Some 8) \<noteq> 255"
proof -
  have eq: "hashStr s (Some 8) = toUint32 (hashLoop 5381 s (length s)) mod 255"
    by (simp add: hashStr_def Let_def)
  have dflt: "hashStr s None = hashStr s (Some 8)"
    by (simp add: hashStr_def Let_def)
  have "toUint32 (hashLoop 5381 s (length s)) mod 255 < 255"
    by simp
  with eq have lt: "hashStr s (Some 8) < 255"
    by simp
  from lt have "hashStr s (Some 8) \<le> 254" and "hashStr s (Some 8) \<noteq> 255"
    by arith+
  with eq dflt show ?thesis
    by blast
qed

section \<open>Properties of serialization\<close>

lemma serialize_dry_netScheme:
  assumes "netScheme this \<noteq> None \<or> classNetScheme this \<noteq> None"
  shows "serialize this \<lparr>dataBuffer = None, bufferOffset = None, dry = Some True\<rparr>
     = Inl (TypeError ''netScheme.sort is not a function'')"
  using assms by (subst serialize.simps) (auto simp: Let_def split: option.splits)

lemma serialize_netScheme_raises:
  assumes "netScheme this \<noteq> None \<or> classNetScheme this \<noteq> None"
  shows "isl (serialize this opts)"
proof (cases "dataBuffer opts = None \<and> dry opts \<noteq> Some True")
  case True
  with serialize_dry_netScheme [OF assms] show ?thesis
    by (subst serialize.simps) (simp add: Let_def)
next
  case False
  with assms show ?thesis
    by (subst serialize.simps) (auto simp: Let_def split: option.splits)
qed

text \<open>
  C6, at a \<^verbatim>\<open>TwoVector(1, 2)\<close>: \<^verbatim>\<open>serialize\<close> produces no buffer. The dry run that is to
  measure the buffer raises the TypeError of the call \<^verbatim>\<open>(netScheme).sort()\<close>, and so does
  every call for an instance with a netScheme that gets as far as the loop over the fields.
\<close>

theorem serialize_TwoVector_raises:
  "serialize twoVectorInstance \<lparr>dataBuffer = None, bufferOffset = None, dry = None\<rparr>
     = Inl (TypeError ''netScheme.sort is not a function'')
   \<and> serialize twoVectorInstance \<lparr>dataBuffer = None, bufferOffset = None, dry = Some True\<rparr>
     = Inl (TypeError ''netScheme.sort is not a function'')
   \<and> serialize twoVectorInstance \<lparr>dataBuffer = Some [0, 0, 0, 0, 0, 0, 0, 0, 0],
        bufferOffset = Some 0, dry = None\<rparr>
     = Inl (TypeError ''netScheme.sort is not a function'')"
proof -
  have n: "netScheme twoVectorInstance \<noteq> None \<or> classNetScheme twoVectorInstance \<noteq> None"
    by (simp add: twoVectorInstance_def)
  note dry = serialize_dry_netScheme [OF n]
  have 1: "serialize twoVectorInstance \<lparr>dataBuffer = None, bufferOffset = None, dry = None\<rparr>
     = Inl (TypeError ''netScheme.sort is not a function'')"
    by (subst serialize.simps) (simp add: Let_def dry)
  have 3: "serialize twoVectorInstance \<lparr>dataBuffer = Some [0, 0, 0, 0, 0, 0, 0, 0, 0],
        bufferOffset = Some 0, dry = None\<rparr>
     = Inl (TypeError ''netScheme.sort is not a function'')"
    by (subst serialize.simps) (simp add: Let_def twoVectorInstance_def)
  from 1 dry 3 show ?thesis
    by simp
qed

text \<open>
  C1, at the player whose title has changed and whose name has not:
  \<^verbatim>\<open>prunedStringsClone\<close> returns a clone in which the changed title is \<^verbatim>\<open>null\<close> and the
  unchanged name has its current value, the reverse of pruning the unchanged strings; and a
  diff update of the player's room does not get to serialize any clone, since
  \<^verbatim>\<open>obj.serialize\<close> raises before.
\<close>

theorem prunedStringsClone_prunes_changed_strings:
  "prunedStringsClone Inr (\<lambda>this. newPlayer) playerNow (Some playerBefore)
     = Inr (newPlayer\<lparr>props := [(''id'', Num 7), (''name'', Str ''ann''), (''title'', Null)]\<rparr>)
   \<and> prunedStringsClone Inr (\<lambda>this. newPlayer) playerNow (Some playerNow) = Inr playerNow
   \<and> serializeUpdate (\<lambda>buffer. Inr playerBefore) (\<lambda>this. newPlayer) pruningServer ''/lobby'' True
     = (Inl (TypeError ''netScheme.sort is not a function''),
        pruningServer\<lparr>networkTransmitter := [SyncHeader 12 False]\<rparr>)"
proof -
  have 1: "prunedStringsClone Inr (\<lambda>this. newPlayer) playerNow (Some playerBefore)
     = Inr (newPlayer\<lparr>props := [(''id'', Num 7), (''name'', Str ''ann''), (''title'', Null)]\<rparr>)"
    by (simp add: prunedStringsClone_def Let_def playerNow_def playerBefore_def newPlayer_def
        playerScheme_def isString_def getProp_def setProp_def)
  have 2: "prunedStringsClone Inr (\<lambda>this. newPlayer) playerNow (Some playerNow) = Inr playerNow"
    by (simp add: prunedStringsClone_def Let_def playerNow_def newPlayer_def)
  have n: "netScheme playerNow \<noteq> None \<or> classNetScheme playerNow \<noteq> None"
    by (simp add: playerNow_def newPlayer_def)
  have s: "serialize playerNow \<lparr>dataBuffer = None, bufferOffset = None, dry = None\<rparr>
     = Inl (TypeError ''netScheme.sort is not a function'')"
    by (subst serialize.simps) (simp add: Let_def serialize_dry_netScheme [OF n])
  have 3: "serializeUpdate (\<lambda>buffer. Inr playerBefore) (\<lambda>this. newPlayer) pruningServer ''/lobby'' True
     = (Inl (TypeError ''netScheme.sort is not a function''),
        pruningServer\<lparr>networkTransmitter := [SyncHeader 12 False]\<rparr>)"
    by (simp add: serializeUpdate_def Let_def pruningServer_def addNetworkedEvent_def s)
  from 1 2 3 show ?thesis
    by simp
qed

section \<open>Properties of GameWorld and GameEngine\<close>

lemma findFreeId_unused: "findFreeId keys p \<notin> set keys"
  by (induction keys p rule: findFreeId.induct) (subst findFreeId.simps, simp)

lemma findFreeId_ge: "p \<le> findFreeId keys p"
proof (induction keys p rule: findFreeId.induct)
  case (1 keys p)
  show ?case
  proof (cases "p \<in> set keys")
    case True
    with "1" have "p + 1 \<le> findFreeId keys (p + 1)"
      by simp
    with True show ?thesis
      by (subst findFreeId.simps) simp
  next
    case False
    then show ?thesis
      by (subst findFreeId.simps) simp
  qed
qed

lemma findFreeId_below_used: "p \<le> j \<Longrightarrow> j < findFreeId keys p \<Longrightarrow> j \<in> set keys"
proof (induction keys p rule: findFreeId.induct)
  case (1 keys p)
  show ?case
  proof (cases "p \<in> set keys")
    case True
    then have step: "findFreeId keys p = findFreeId keys (p + 1)"
      by (subst findFreeId.simps) simp
    show ?thesis
    proof (cases "j = p")
      case True
      with \<open>p \<in> set keys\<close> show ?thesis
        by simp
    next
      case False
      with "1.prems" have "p + 1 \<le> j"
        by simp
      with "1.IH" [OF True] "1.prems" step show ?thesis
        by simp
    qed
  next
    case False
    then have "findFreeId keys p = p"
      by (subst findFreeId.simps) simp
    with "1.prems" show ?thesis
      by simp
  qed
qed

text \<open>
  C7. \<^verbatim>\<open>getNewId()\<close> returns the least id that is at least \<^verbatim>\<open>idCount\<close> and is not a key
  of \<^verbatim>\<open>world.objects\<close>: it is at least \<^verbatim>\<open>idCount\<close>, it is not a key, and every id from
  \<^verbatim>\<open>idCount\<close> up to it is a key. Afterwards \<^verbatim>\<open>idCount\<close> is the returned id plus one, and
  nothing else in the world has changed.
\<close>

theorem getNewId_smallest_unused:
  fixes w :: "'o GameWorld"
  defines "keys \<equiv> fst ` set (objects w)"
  shows "fst (getNewId w) = (LEAST i. idCount w \<le> i \<and> i \<notin> keys)
    \<and> idCount w \<le> fst (getNewId w)
    \<and> fst (getNewId w) \<notin> keys
    \<and> (\<forall>j. idCount w \<le> j \<and> j < fst (getNewId w) \<longrightarrow> j \<in> keys)
    \<and> snd (getNewId w) = w\<lparr>idCount := fst (getNewId w) + 1\<rparr>"
proof -
  let ?r = "findFreeId (map fst (objects w)) (idCount w)"
  have r: "fst (getNewId w) = ?r"
    by (simp add: getNewId_def Let_def)
  have ge: "idCount w \<le> ?r"
    by (rule findFreeId_ge)
  have unused: "?r \<notin> keys"
    using findFreeId_unused [of "map fst (objects w)" "idCount w"] by (simp add: keys_def)
  have below: "\<forall>j. idCount w \<le> j \<and> j < ?r \<longrightarrow> j \<in> keys"
    using findFreeId_below_used [of "idCount w" _ "map fst (objects w)"]
    by (auto simp: keys_def)
  have least: "(LEAST i. idCount w \<le> i \<and> i \<notin> keys) = ?r"
  proof (rule Least_equality)
    show "idCount w \<le> ?r \<and> ?r \<notin> keys"
      using ge unused by simp
  next
    fix y
    assume y: "idCount w \<le> y \<and> y \<notin> keys"
    show "?r \<le> y"
    proof (rule ccontr)
      assume "\<not> ?r \<le> y"
      with y below show False
        by auto
    qed
  qed
  have upd: "snd (getNewId w) = w\<lparr>idCount := ?r + 1\<rparr>"
    by (simp add: getNewId_def Let_def)
  from r ge unused below least upd show ?thesis
    by simp
qed

theorem getNewId_smallest_unused_witness:
  "fst (getNewId \<lparr>stepCount = 0, playerCount = 0, idCount = 5,
        objects = [(5, ''a''), (8, ''b''), (6, ''c'')]\<rparr>) = 7
   \<and> idCount (snd (getNewId \<lparr>stepCount = 0, playerCount = 0, idCount = 5,
        objects = [(5, ''a''), (8, ''b''), (6, ''c'')]\<rparr>)) = 8
   \<and> (5::nat) \<le> 6 \<and> (6::nat) < 7 \<and> (6::nat) \<in> fst ` set [(5, ''a''), (8, ''b''), (6, ''c'')]"
proof -
  let ?w = "\<lparr>stepCount = 0, playerCount = 0, idCount = 5,
        objects = [(5::nat, ''a''), (8, ''b''), (6, ''c'')]\<rparr>"
  have r: "fst (getNewId ?w) = 7"
    by (simp add: getNewId_def Let_def findFreeId.simps)
  from getNewId_smallest_unused [of ?w]
  have "\<forall>j. idCount ?w \<le> j \<and> j < fst (getNewId ?w) \<longrightarrow> j \<in> fst ` set (objects ?w)"
    and "snd (getNewId ?w) = ?w\<lparr>idCount := fst (getNewId ?w) + 1\<rparr>"
    by blast+
  with r show ?thesis
    by simp
qed

lemma serverCopyArrived_iff:
  "forEachObject (serverCopyCallback object) objs acc
     = (if \<exists>(k, o') \<in> set objs. inputId o' = inputId object then True else acc)"
  by (induction objs arbitrary: acc) (auto simp: serverCopyCallback_def)

text \<open>
  C8. \<^verbatim>\<open>removeObjectFromWorld\<close> throws exactly when \<^verbatim>\<open>world.objects\<close> has no object under
  the id. When the object exists, its \<^verbatim>\<open>onRemoveFromWorld\<close> is called, then
  \<^verbatim>\<open>objectDestroyed\<close> is emitted, and the entry is deleted from the map while every other
  entry stays. When it throws, the engine, and so the world map, is as before.
\<close>

theorem removeObjectFromWorld_throws_iff_missing:
  fixes e :: "'a GameObject_scheme GameEngine" and ref :: "'a GameObject_scheme objectRef"
  defines "i \<equiv> objectIdOf ref"
  defines "r \<equiv> removeObjectFromWorld e ref"
  shows "(isl (fst r) \<longleftrightarrow> map_of (objects (world e)) i = None)
    \<and> (\<forall>ob. map_of (objects (world e)) i = Some ob \<longrightarrow>
          fst r = Inr ()
          \<and> effects (snd r) = effects e @ [Call_onRemoveFromWorld (objId ob), Emit_objectDestroyed (objId ob)]
          \<and> map_of (objects (world (snd r))) = (map_of (objects (world e)))(i := None)
          \<and> objects (world (snd r)) = AList.delete i (objects (world e)))
    \<and> (isl (fst r) \<longrightarrow> snd r = e)"
  unfolding r_def i_def
  by (cases "map_of (objects (world e)) (objectIdOf ref)")
     (simp_all add: removeObjectFromWorld_def removeObject_def delete_conv')

theorem removeObjectFromWorld_throws_iff_missing_witness:
  "map_of [(7::nat, \<lparr>objId = 7, playerId = 1, inputId = 0, roomName = None\<rparr>)] 7
     = Some \<lparr>objId = 7, playerId = 1, inputId = 0, roomName = None\<rparr>
   \<and> removeObjectFromWorld
        \<lparr>world = \<lparr>stepCount = 0, playerCount = 0, idCount = 8,
            objects = [(7, \<lparr>objId = 7, playerId = 1, inputId = 0, roomName = None\<rparr>)]\<rparr>,
         clientIDSpace = None, enginePlayerId = 0, physicsEngine = False,
         ignorePhysics = False, effects = []\<rparr> (ById 7)
     = (Inr (),
        \<lparr>world = \<lparr>stepCount = 0, playerCount = 0, idCount = 8, objects = []\<rparr>,
         clientIDSpace = None, enginePlayerId = 0, physicsEngine = False,
         ignorePhysics = False,
         effects = [Call_onRemoveFromWorld 7, Emit_objectDestroyed 7]\<rparr>)
   \<and> isl (fst (removeObjectFromWorld
        \<lparr>world = \<lparr>stepCount = 0, playerCount = 0, idCount = 8,
            objects = [(7, \<lparr>objId = 7, playerId = 1, inputId = 0, roomName = None\<rparr>)]\<rparr>,
         clientIDSpace = None, enginePlayerId = 0, physicsEngine = False,
         ignorePhysics = False, effects = []\<rparr> (ById 8)))
   \<and> snd (removeObjectFromWorld
        \<lparr>world = \<lparr>stepCount = 0, playerCount = 0, idCount = 8,
            objects = [(7, \<lparr>objId = 7, playerId = 1, inputId = 0, roomName = None\<rparr>)]\<rparr>,
         clientIDSpace = None, enginePlayerId = 0, physicsEngine = False,
         ignorePhysics = False, effects = []\<rparr> (ById 8))
     = \<lparr>world = \<lparr>stepCount = 0, playerCount = 0, idCount = 8,
            objects = [(7, \<lparr>objId = 7, playerId = 1, inputId = 0, roomName = None\<rparr>)]\<rparr>,
         clientIDSpace = None, enginePlayerId = 0, physicsEngine = False,
         ignorePhysics = False, effects = []\<rparr>"
proof -
  let ?ob = "\<lparr>objId = 7, playerId = 1, inputId = 0, roomName = None\<rparr>"
  let ?e = "\<lparr>world = \<lparr>stepCount = 0, playerCount = 0, idCount = 8, objects = [(7::nat, ?ob)]\<rparr>,
         clientIDSpace = None, enginePlayerId = 0, physicsEngine = False,
         ignorePhysics = False, effects = []\<rparr>"
  have present: "map_of (objects (world ?e)) 7 = Some ?ob"
    by simp
  have missing: "map_of (objects (world ?e)) 8 = None"
    by simp
  from removeObjectFromWorld_throws_iff_missing [of ?e "ById 7"] present
  have ok: "fst (removeObjectFromWorld ?e (ById 7)) = Inr ()"
      "effects (snd (removeObjectFromWorld ?e (ById 7)))
         = effects ?e @ [Call_onRemoveFromWorld (objId ?ob), Emit_objectDestroyed (objId ?ob)]"
      "objects (world (snd (removeObjectFromWorld ?e (ById 7)))) = AList.delete 7 (objects (world ?e))"
    by simp_all
  from removeObjectFromWorld_throws_iff_missing [of ?e "ById 8"] missing
  have thrown: "isl (fst (removeObjectFromWorld ?e (ById 8)))"
      "snd (removeObjectFromWorld ?e (ById 8)) = ?e"
    by simp_all
  have rest: "removeObjectFromWorld ?e (ById 7)
     = (Inr (), \<lparr>world = \<lparr>stepCount = 0, playerCount = 0, idCount = 8, objects = []\<rparr>,
         clientIDSpace = None, enginePlayerId = 0, physicsEngine = False,
         ignorePhysics = False, effects = [Call_onRemoveFromWorld 7, Emit_objectDestroyed 7]\<rparr>)"
    by (simp add: removeObjectFromWorld_def removeObject_def)
  from present ok thrown rest show ?thesis
    by simp
qed

text \<open>
  C9. On a client, when the id of the object is in the client id space and some object of
  the world has the same \<^verbatim>\<open>inputId\<close> (the default 0 included), \<^verbatim>\<open>addObjectToWorld\<close> returns
  \<^verbatim>\<open>undefined\<close> and leaves the engine as it was: the object map is unchanged, no hook is
  called and no event is emitted.
\<close>

theorem addObjectToWorld_shadow_noop:
  fixes e :: "'a GameObject_scheme GameEngine"
  assumes "clientIDSpace e = Some c"
    and "c \<le> objId object"
    and "\<exists>(k, o') \<in> set (objects (world e)). inputId o' = inputId object"
  shows "addObjectToWorld e object = (None, e)"
  using assms by (simp add: addObjectToWorld_def inClientIDSpace_def serverCopyArrived_iff)

theorem addObjectToWorld_shadow_noop_witness:
  "addObjectToWorld
     \<lparr>world = \<lparr>stepCount = 0, playerCount = 0, idCount = 1000002,
         objects = [(7, \<lparr>objId = 7, playerId = 1, inputId = 0, roomName = None\<rparr>)]\<rparr>,
      clientIDSpace = Some 1000000, enginePlayerId = 1, physicsEngine = False,
      ignorePhysics = False, effects = []\<rparr>
     \<lparr>objId = 1000001, playerId = 1, inputId = 0, roomName = None\<rparr>
   = (None,
      \<lparr>world = \<lparr>stepCount = 0, playerCount = 0, idCount = 1000002,
         objects = [(7, \<lparr>objId = 7, playerId = 1, inputId = 0, roomName = None\<rparr>)]\<rparr>,
      clientIDSpace = Some 1000000, enginePlayerId = 1, physicsEngine = False,
      ignorePhysics = False, effects = []\<rparr>)"
proof -
  let ?e = "\<lparr>world = \<lparr>stepCount = 0, playerCount = 0, idCount = 1000002,
         objects = [(7::nat, \<lparr>objId = 7, playerId = 1, inputId = 0, roomName = None\<rparr>)]\<rparr>,
      clientIDSpace = Some 1000000, enginePlayerId = 1, physicsEngine = False,
      ignorePhysics = False, effects = []\<rparr>"
  let ?shadow = "\<lparr>objId = 1000001, playerId = 1, inputId = 0, roomName = None\<rparr>"
  have 1: "clientIDSpace ?e = Some 1000000"
    by simp
  have 2: "(1000000::nat) \<le> objId ?shadow"
    by simp
  have 3: "\<exists>(k, o') \<in> set (objects (world ?e)). inputId o' = inputId ?shadow"
    by simp
  from addObjectToWorld_shadow_noop [OF 1 2 3] show ?thesis .
qed

section \<open>Properties of the server's input queues\<close>


lemma processedInputs_append:
  "processedInputs pid (es @ fs) = processedInputs pid es @ processedInputs pid fs"
  by (induction pid es rule: processedInputs.induct) simp_all

lemma processedInputs_dispatch:
  "processedInputs pid (concat (map (dispatchInput pid') inputs))
     = (if pid' = pid then inputs else [])"
proof (cases "pid' = pid")
  case True
  then show ?thesis
    by (induction inputs) (simp_all add: dispatchInput_def)
next
  case False
  then show ?thesis
    by (induction inputs) (simp_all add: dispatchInput_def)
qed

lemma queueInputForPlayer_gameEngine:
  "gameEngine (queueInputForPlayer s d pid) = gameEngine s"
  by (simp add: queueInputForPlayer_def Let_def)

lemma queueInputForPlayer_queued:
  "queuedInputs (queueInputForPlayer s d pid) pid' k =
     (if pid' = pid \<and> k = step d then queuedInputs s pid k @ [d] else queuedInputs s pid' k)"
  by (simp add: queueInputForPlayer_def queuedInputs_def Let_def update_conv'
      split: option.splits)

lemma queueInputForPlayer_steps:
  "queuedSteps (queueInputForPlayer s d pid) pid' =
     (if pid' = pid then insert (step d) (queuedSteps s pid) else queuedSteps s pid')"
  by (simp add: queueInputForPlayer_def queuedSteps_def Let_def update_conv'
      dom_map_of_conv_image_fst [symmetric] split: option.splits)

lemma replayForPlayer_other:
  assumes "q \<noteq> p"
  shows "map_of (playerInputQueues (replayForPlayer q s)) p = map_of (playerInputQueues s) p"
    and "processedInputs p (effects (gameEngine (replayForPlayer q s)))
           = processedInputs p (effects (gameEngine s))"
    and "stepCount (world (gameEngine (replayForPlayer q s))) = stepCount (world (gameEngine s))"
  using assms
  by (auto simp: replayForPlayer_def replayOldestStep_def Let_def update_conv'
      processedInputs_append processedInputs_dispatch split: option.splits)

lemma replayForPlayer_same:
  shows "map_of (playerInputQueues (replayForPlayer p s)) p
           = map_option (\<lambda>q. snd (replayOldestStep (stepCount (world (gameEngine s))) p q))
               (map_of (playerInputQueues s) p)"
    and "processedInputs p (effects (gameEngine (replayForPlayer p s)))
           = processedInputs p (effects (gameEngine s))
             @ (case map_of (playerInputQueues s) p of
                  None \<Rightarrow> []
                | Some q \<Rightarrow> processedInputs p
                    (fst (replayOldestStep (stepCount (world (gameEngine s))) p q)))"
    and "stepCount (world (gameEngine (replayForPlayer p s))) = stepCount (world (gameEngine s))"
  by (auto simp: replayForPlayer_def update_conv' processedInputs_append
      split: option.splits prod.splits)

lemma replayForPlayers_view:
  assumes "distinct pids"
  shows "map_of (playerInputQueues (replayForPlayers pids s)) p
           = (if p \<in> set pids
              then map_option (\<lambda>q. snd (replayOldestStep (stepCount (world (gameEngine s))) p q))
                     (map_of (playerInputQueues s) p)
              else map_of (playerInputQueues s) p)
       \<and> processedInputs p (effects (gameEngine (replayForPlayers pids s)))
           = processedInputs p (effects (gameEngine s))
             @ (if p \<in> set pids
                then (case map_of (playerInputQueues s) p of
                        None \<Rightarrow> []
                      | Some q \<Rightarrow> processedInputs p
                          (fst (replayOldestStep (stepCount (world (gameEngine s))) p q)))
                else [])
       \<and> stepCount (world (gameEngine (replayForPlayers pids s))) = stepCount (world (gameEngine s))"
  using assms
proof (induction pids arbitrary: s)
  case Nil
  then show ?case
    by simp
next
  case (Cons q pids)
  from Cons.prems have d: "distinct pids" and nq: "q \<notin> set pids"
    by simp_all
  note IH = Cons.IH [OF d, of "replayForPlayer q s"]
  show ?case
  proof (cases "q = p")
    case True
    with nq have "p \<notin> set pids"
      by simp
    with IH True show ?thesis
      by (simp add: replayForPlayer_same)
  next
    case False
    with IH show ?thesis
      by (simp add: replayForPlayer_other cong: option.case_cong)
  qed
qed

lemma serializeUpdate_frame:
  assumes "serializeUpdate D N s room diffUpdate = (res, s')"
  shows "gameEngine s' = gameEngine s" and "playerInputQueues s' = playerInputQueues s"
  using assms by (auto simp: serializeUpdate_def Let_def split: prod.splits)

lemma syncStateToClients_frame:
  assumes "syncStateToClients D N P s room = (res, s')"
  shows "gameEngine s' = gameEngine s \<and> playerInputQueues s' = playerInputQueues s"
proof (cases "map_of (rooms s) room")
  case None
  with assms show ?thesis
    by (simp add: syncStateToClients_def)
next
  case (Some r)
  define due where "due \<longleftrightarrow> requestImmediateSync r
             \<or> (updateRate s \<noteq> 0 \<and> stepCount (world (gameEngine s)) mod updateRate s = 0)"
  define players' where "players' = map (\<lambda>(socketId, player).
                                   if playerRoom player = room \<and> playerState player = New
                                   then (socketId, player\<lparr>playerState := Synced\<rparr>)
                                   else (socketId, player)) (connectedPlayers s)"
  define diffUpdate where "diffUpdate
      \<longleftrightarrow> (filter (\<lambda>(socketId, player). playerRoom player = room
                                        \<and> playerState player = New) (connectedPlayers s) = []
         \<and> \<not> ((fullSyncRate s \<noteq> 0 \<and> syncCounter r mod fullSyncRate s = 0)
                                    \<or> requestFullSync r))"
  define s1 where "s1 = s\<lparr>connectedPlayers := players',
      rooms := AList.update room (r\<lparr>syncCounter := syncCounter r + 1\<rparr>) (rooms s)\<rparr>"
  obtain res2 s2 where su: "serializeUpdate D N s1 room diffUpdate = (res2, s2)"
    by (cases "serializeUpdate D N s1 room diffUpdate")
  from serializeUpdate_frame [OF su]
  have f: "gameEngine s2 = gameEngine s" "playerInputQueues s2 = playerInputQueues s"
    by (simp_all add: s1_def)
  have "syncStateToClients D N P s room =
       (if due then
        (case serializeUpdate D N s1 room diffUpdate of
                  (Inl err, s2) \<Rightarrow> (Inl err, s2)
                | (Inr u, s2) \<Rightarrow>
                    (case P (networkTransmitter s2) of
                       Inl err \<Rightarrow> (Inl err, s2)
                     | Inr payload \<Rightarrow>
                         (Inr (),
                          s2\<lparr>worldUpdates := worldUpdates s2
                                @ map (\<lambda>socketId. (socketId, payload))
                                    (map fst (filter (\<lambda>(socketId, player). playerRoom player = room)
                                          (connectedPlayers s))),
                             networkTransmitter := [],
                             rooms := AList.update room
                                        (r\<lparr>syncCounter := syncCounter r + 1\<rparr>
                                          \<lparr>requestImmediateSync := False,
                                            requestFullSync := False\<rparr>) (rooms s2)\<rparr>)))
        else (Inr (), s))"
    unfolding syncStateToClients_def Let_def s1_def players'_def diffUpdate_def due_def Some
    by simp
  with assms su f show ?thesis
    by (auto split: sum.splits if_splits)
qed

lemma syncRooms_frame:
  assumes "syncRooms D N P names s = (res, s')"
  shows "gameEngine s' = gameEngine s \<and> playerInputQueues s' = playerInputQueues s"
  using assms
proof (induction names arbitrary: s)
  case Nil
  then show ?case
    by simp
next
  case (Cons room names)
  obtain res1 s1 where one: "syncStateToClients D N P s room = (res1, s1)"
    by (cases "syncStateToClients D N P s room")
  note f = syncStateToClients_frame [OF one]
  show ?case
  proof (cases res1)
    case (Inl err)
    with Cons.prems one f show ?thesis
      by simp
  next
    case (Inr u)
    with Cons.prems one have "syncRooms D N P names s1 = (res, s')"
      by simp
    from Cons.IH [OF this] f show ?thesis
      by simp
  qed
qed

lemma ServerEngine_step_view:
  fixes s :: "NetworkedObject ServerEngine"
  defines "sc \<equiv> stepCount (world (gameEngine s))"
  shows "stepCount (world (gameEngine (snd (ServerEngine_step D N P s)))) = sc + 1"
    and "map_of (playerInputQueues (snd (ServerEngine_step D N P s))) p
           = map_option (\<lambda>q. snd (replayOldestStep sc p q)) (map_of (playerInputQueues s) p)"
    and "processedInputs p (effects (gameEngine (snd (ServerEngine_step D N P s))))
           = processedInputs p (effects (gameEngine s))
             @ (case map_of (playerInputQueues s) p of
                  None \<Rightarrow> []
                | Some q \<Rightarrow> processedInputs p (fst (replayOldestStep sc p q)))"
proof -
  define pids where "pids = sort (remdups (map fst (playerInputQueues s)))"
  define s0 where "s0 = s\<lparr>gameEngine := (gameEngine s)\<lparr>effects := effects (gameEngine s)
                   @ [Emit_server_preStep (stepCount (world (gameEngine s)) + 1)]\<rparr>\<rparr>"
  define s1 where "s1 = replayForPlayers pids s0"
  have d: "distinct pids"
    by (simp add: pids_def)
  have mem: "p \<in> set pids \<longleftrightarrow> map_of (playerInputQueues s) p \<noteq> None"
    by (simp add: pids_def map_of_eq_None_iff)
  have s0: "playerInputQueues s0 = playerInputQueues s"
      "stepCount (world (gameEngine s0)) = sc"
      "processedInputs p (effects (gameEngine s0)) = processedInputs p (effects (gameEngine s))"
    by (simp_all add: s0_def sc_def processedInputs_append)
  from replayForPlayers_view [OF d, of s0 p] s0 mem
  have q1: "map_of (playerInputQueues s1) p
           = map_option (\<lambda>q. snd (replayOldestStep sc p q)) (map_of (playerInputQueues s) p)"
    and p1: "processedInputs p (effects (gameEngine s1))
           = processedInputs p (effects (gameEngine s))
             @ (case map_of (playerInputQueues s) p of
                  None \<Rightarrow> []
                | Some q \<Rightarrow> processedInputs p (fst (replayOldestStep sc p q)))"
    and c1: "stepCount (world (gameEngine s1)) = sc"
    by (auto simp: s1_def)
  define ge where "ge = snd (GameEngine_step (gameEngine s1) (Some False) None False)"
  have ges: "GameEngine_step (gameEngine s1) (Some False) None False = (Inr (), ge)"
    by (simp add: ge_def GameEngine_step_def Let_def)
  have ge: "stepCount (world ge) = sc + 1"
      "processedInputs p (effects ge) = processedInputs p (effects (gameEngine s1))"
    by (simp_all add: ge_def GameEngine_step_def Let_def c1 processedInputs_append)
  obtain res s2 where sr: "syncRooms D N P (remdups (map fst (rooms s1))) (s1\<lparr>gameEngine := ge\<rparr>)
      = (res, s2)"
    by (cases "syncRooms D N P (remdups (map fst (rooms s1))) (s1\<lparr>gameEngine := ge\<rparr>)")
  from syncRooms_frame [OF sr]
  have s2: "gameEngine s2 = ge" "playerInputQueues s2 = playerInputQueues s1"
    by simp_all
  have "ServerEngine_step D N P s =
     (case GameEngine_step (gameEngine s1) (Some False) None False of
           (Inl err, ge) \<Rightarrow> (Inl err, s1\<lparr>gameEngine := ge\<rparr>)
         | (Inr u, ge) \<Rightarrow>
             (case syncRooms D N P (remdups (map fst (rooms s1))) (s1\<lparr>gameEngine := ge\<rparr>) of
                (Inl err, s2) \<Rightarrow> (Inl err, s2)
              | (Inr u', s2) \<Rightarrow>
                  (Inr (),
                   s2\<lparr>objMemory := filter (\<lambda>(ident, buffer).
                                      map_of (objects (world (gameEngine s2))) ident \<noteq> None)
                                    (objMemory s2),
                      gameEngine := (gameEngine s2)\<lparr>effects := effects (gameEngine s2)
                        @ [Emit_server_postStep (stepCount (world (gameEngine s2)))]\<rparr>\<rparr>)))"
    unfolding ServerEngine_step_def Let_def s1_def s0_def pids_def by (rule refl)
  then have step: "ServerEngine_step D N P s =
     (case res of
        Inl err \<Rightarrow> (Inl err, s2)
      | Inr u' \<Rightarrow>
          (Inr (),
           s2\<lparr>objMemory := filter (\<lambda>(ident, buffer).
                              map_of (objects (world (gameEngine s2))) ident \<noteq> None)
                            (objMemory s2),
              gameEngine := (gameEngine s2)\<lparr>effects := effects (gameEngine s2)
                @ [Emit_server_postStep (stepCount (world (gameEngine s2)))]\<rparr>\<rparr>))"
    by (simp add: ges sr split: sum.splits)
  show "stepCount (world (gameEngine (snd (ServerEngine_step D N P s)))) = sc + 1"
    by (simp add: step s2 ge split: sum.splits)
  show "map_of (playerInputQueues (snd (ServerEngine_step D N P s))) p
           = map_option (\<lambda>q. snd (replayOldestStep sc p q)) (map_of (playerInputQueues s) p)"
    by (simp add: step s2 q1 split: sum.splits)
  show "processedInputs p (effects (gameEngine (snd (ServerEngine_step D N P s))))
           = processedInputs p (effects (gameEngine s))
             @ (case map_of (playerInputQueues s) p of
                  None \<Rightarrow> []
                | Some q \<Rightarrow> processedInputs p (fst (replayOldestStep sc p q)))"
    by (simp add: step s2 ge p1 processedInputs_append split: sum.splits)
qed

lemma ServerEngine_step_player:
  shows "processedInputs p (effects (gameEngine (snd (ServerEngine_step D N P s))))
           = processedInputs p (effects (gameEngine s))
             @ (case oldestDueStep s p of None \<Rightarrow> [] | Some m \<Rightarrow> queuedInputs s p m)"
    and "queuedInputs (snd (ServerEngine_step D N P s)) p k
           = (if oldestDueStep s p = Some k then [] else queuedInputs s p k)"
    and "queuedSteps (snd (ServerEngine_step D N P s)) p
           = (case oldestDueStep s p of None \<Rightarrow> queuedSteps s p | Some m \<Rightarrow> queuedSteps s p - {m})"
proof -
  show "processedInputs p (effects (gameEngine (snd (ServerEngine_step D N P s))))
           = processedInputs p (effects (gameEngine s))
             @ (case oldestDueStep s p of None \<Rightarrow> [] | Some m \<Rightarrow> queuedInputs s p m)"
    by (simp add: ServerEngine_step_view oldestDueStep_def queuedInputs_def replayOldestStep_def
        Let_def processedInputs_dispatch split: option.splits)
  show "queuedInputs (snd (ServerEngine_step D N P s)) p k
           = (if oldestDueStep s p = Some k then [] else queuedInputs s p k)"
    by (auto simp: ServerEngine_step_view oldestDueStep_def queuedInputs_def replayOldestStep_def
        Let_def delete_conv' split: option.splits)
  show "queuedSteps (snd (ServerEngine_step D N P s)) p
           = (case oldestDueStep s p of None \<Rightarrow> queuedSteps s p | Some m \<Rightarrow> queuedSteps s p - {m})"
    by (auto simp: ServerEngine_step_view oldestDueStep_def queuedSteps_def replayOldestStep_def
        Let_def delete_conv' dom_map_of_conv_image_fst [symmetric] split: option.splits)
qed

lemma oldestDueStep_least:
  assumes "oldestDueStep s p = Some m"
  shows "m \<in> queuedSteps s p" and "\<forall>k \<in> queuedSteps s p. m \<le> k"
    and "m \<le> stepCount (world (gameEngine s))"
  using assms
  by (auto simp: oldestDueStep_def queuedSteps_def split: option.splits if_splits
      intro!: Min_le Min_in)

lemma runServer_Tick:
  "snd (runServer D N P (Tick # evs) s)
     = (case fst (ServerEngine_step D N P s) of
          Inl err \<Rightarrow> snd (ServerEngine_step D N P s)
        | Inr u \<Rightarrow> snd (runServer D N P evs (snd (ServerEngine_step D N P s))))"
  "receivedInputs p (handledEvents D N P (Tick # evs) s)
     = (case fst (ServerEngine_step D N P s) of
          Inl err \<Rightarrow> []
        | Inr u \<Rightarrow> receivedInputs p (handledEvents D N P evs (snd (ServerEngine_step D N P s))))"
  by (cases "ServerEngine_step D N P s"; simp split: sum.splits)+

lemma handledEvents_prefix: "\<exists>rest. evs = handledEvents D N P evs s @ rest"
proof (induction evs arbitrary: s)
  case Nil
  show ?case
    by simp
next
  case (Cons ev evs)
  show ?case
  proof (cases ev)
    case (ReceiveInput d q)
    with Cons.IH [of "queueInputForPlayer s d q"] show ?thesis
      by auto
  next
    case Tick
    with Cons.IH [of "snd (ServerEngine_step D N P s)"] show ?thesis
      by (cases "ServerEngine_step D N P s") (auto split: sum.splits)
  qed
qed

lemma handledEvents_all:
  assumes "fst (runServer D N P evs s) = Inr ()"
  shows "handledEvents D N P evs s = evs"
  using assms
proof (induction evs arbitrary: s)
  case Nil
  show ?case
    by simp
next
  case (Cons ev evs)
  show ?case
  proof (cases ev)
    case (ReceiveInput d q)
    with Cons.IH [of "queueInputForPlayer s d q"] Cons.prems show ?thesis
      by simp
  next
    case Tick
    with Cons.IH [of "snd (ServerEngine_step D N P s)"] Cons.prems show ?thesis
      by (cases "ServerEngine_step D N P s") (auto split: sum.splits)
  qed
qed

lemma queued_have_step:
  assumes "\<forall>k. filter (\<lambda>i. step i = k) rcv
             = filter (\<lambda>i. step i = k) (processedInputs p (effects (gameEngine s)))
               @ queuedInputs s p k"
  shows "\<forall>i \<in> set (queuedInputs s p k). step i = k"
    and "set (processedInputs p (effects (gameEngine s))) \<subseteq> set rcv"
proof -
  from assms have k: "filter (\<lambda>i. step i = k) rcv
      = filter (\<lambda>i. step i = k) (processedInputs p (effects (gameEngine s))) @ queuedInputs s p k"
    by blast
  have "set (queuedInputs s p k) \<subseteq> set (filter (\<lambda>i. step i = k) rcv)"
    unfolding k by simp
  then show "\<forall>i \<in> set (queuedInputs s p k). step i = k"
    by auto
  show "set (processedInputs p (effects (gameEngine s))) \<subseteq> set rcv"
  proof
    fix i
    assume i: "i \<in> set (processedInputs p (effects (gameEngine s)))"
    from assms have "filter (\<lambda>j. step j = step i) rcv
      = filter (\<lambda>j. step j = step i) (processedInputs p (effects (gameEngine s)))
        @ queuedInputs s p (step i)"
      by blast
    moreover from i
    have "i \<in> set (filter (\<lambda>j. step j = step i) (processedInputs p (effects (gameEngine s))))"
      by simp
    ultimately have "i \<in> set (filter (\<lambda>j. step j = step i) rcv)"
      by simp
    then show "i \<in> set rcv"
      by simp
  qed
qed

lemma accounted_queue:
  assumes "\<forall>k. filter (\<lambda>i. step i = k) rcv
             = filter (\<lambda>i. step i = k) (processedInputs p (effects (gameEngine s)))
               @ queuedInputs s p k"
  shows "\<forall>k. filter (\<lambda>i. step i = k) (rcv @ (if q = p then [d] else []))
             = filter (\<lambda>i. step i = k)
                 (processedInputs p (effects (gameEngine (queueInputForPlayer s d q))))
               @ queuedInputs (queueInputForPlayer s d q) p k"
  using assms by (simp add: queueInputForPlayer_gameEngine queueInputForPlayer_queued)

lemma accounted_step:
  assumes "\<forall>k. filter (\<lambda>i. step i = k) rcv
             = filter (\<lambda>i. step i = k) (processedInputs p (effects (gameEngine s)))
               @ queuedInputs s p k"
  shows "\<forall>k. filter (\<lambda>i. step i = k) rcv
             = filter (\<lambda>i. step i = k)
                 (processedInputs p (effects (gameEngine (snd (ServerEngine_step D N P s)))))
               @ queuedInputs (snd (ServerEngine_step D N P s)) p k"
proof (cases "oldestDueStep s p")
  case None
  with assms show ?thesis
    by (simp add: ServerEngine_step_player)
next
  case (Some m)
  from queued_have_step(1) [OF assms, of m]
  have m: "\<And>k. filter (\<lambda>i. step i = k) (queuedInputs s p m)
              = (if k = m then queuedInputs s p m else [])"
    by (auto simp: filter_empty_conv)
  show ?thesis
  proof
    fix k
    from assms have "filter (\<lambda>i. step i = k) rcv
             = filter (\<lambda>i. step i = k) (processedInputs p (effects (gameEngine s)))
               @ queuedInputs s p k"
      by blast
    with Some m show "filter (\<lambda>i. step i = k) rcv
             = filter (\<lambda>i. step i = k)
                 (processedInputs p (effects (gameEngine (snd (ServerEngine_step D N P s)))))
               @ queuedInputs (snd (ServerEngine_step D N P s)) p k"
      by (simp add: ServerEngine_step_player)
  qed
qed

lemma runServer_accounted:
  assumes "\<forall>k. filter (\<lambda>i. step i = k) rcv
             = filter (\<lambda>i. step i = k) (processedInputs p (effects (gameEngine s)))
               @ queuedInputs s p k"
  shows "\<forall>k. filter (\<lambda>i. step i = k) (rcv @ receivedInputs p (handledEvents D N P evs s))
             = filter (\<lambda>i. step i = k)
                 (processedInputs p (effects (gameEngine (snd (runServer D N P evs s)))))
               @ queuedInputs (snd (runServer D N P evs s)) p k"
  using assms
proof (induction evs arbitrary: s rcv)
  case Nil
  then show ?case
    by simp
next
  case (Cons ev evs)
  show ?case
  proof (cases ev)
    case (ReceiveInput d q)
    have rcv: "rcv @ receivedInputs p (handledEvents D N P (ev # evs) s)
        = (rcv @ (if q = p then [d] else []))
          @ receivedInputs p (handledEvents D N P evs (queueInputForPlayer s d q))"
      and run: "runServer D N P (ev # evs) s = runServer D N P evs (queueInputForPlayer s d q)"
      using ReceiveInput by simp_all
    show ?thesis
      unfolding rcv run by (rule Cons.IH [OF accounted_queue [OF Cons.prems]])
  next
    case Tick
    note acc = accounted_step [OF Cons.prems, of D N P]
    show ?thesis
    proof (cases "fst (ServerEngine_step D N P s)")
      case (Inl err)
      with acc show ?thesis
        unfolding Tick by (simp add: runServer_Tick del: runServer.simps handledEvents.simps)
    next
      case (Inr u)
      with Cons.IH [OF acc] show ?thesis
        unfolding Tick by (simp add: runServer_Tick del: runServer.simps handledEvents.simps)
    qed
  qed
qed

lemma sorted_steps_constant:
  assumes "\<forall>i \<in> set xs. step i = m"
  shows "sorted (map step xs)"
  using assms by (induction xs) auto

lemma sorted_after_step:
  assumes acc: "\<forall>k. filter (\<lambda>i. step i = k) rcv
             = filter (\<lambda>i. step i = k) (processedInputs p (effects (gameEngine s)))
               @ queuedInputs s p k"
    and ps: "sorted (map step (processedInputs p (effects (gameEngine s))))"
    and le: "\<forall>i \<in> set (processedInputs p (effects (gameEngine s))).
               \<forall>k \<in> queuedSteps s p. step i \<le> k"
  shows "sorted (map step (processedInputs p
           (effects (gameEngine (snd (ServerEngine_step D N P s))))))"
    and "\<forall>i \<in> set (processedInputs p (effects (gameEngine (snd (ServerEngine_step D N P s))))).
               \<forall>k \<in> queuedSteps (snd (ServerEngine_step D N P s)) p. step i \<le> k"
proof -
  show "sorted (map step (processedInputs p
           (effects (gameEngine (snd (ServerEngine_step D N P s))))))"
  proof (cases "oldestDueStep s p")
    case None
    with ps show ?thesis
      by (simp add: ServerEngine_step_player)
  next
    case (Some m)
    have b: "\<forall>i \<in> set (queuedInputs s p m). step i = m"
      by (rule queued_have_step(1) [OF acc])
    have "sorted (map step (queuedInputs s p m))"
      by (rule sorted_steps_constant [OF b])
    moreover have "\<forall>i \<in> set (processedInputs p (effects (gameEngine s))).
        \<forall>j \<in> set (queuedInputs s p m). step i \<le> step j"
      using le oldestDueStep_least(1) [OF Some] b by auto
    ultimately show ?thesis
      using ps Some by (simp add: ServerEngine_step_player sorted_append)
  qed
  show "\<forall>i \<in> set (processedInputs p (effects (gameEngine (snd (ServerEngine_step D N P s))))).
               \<forall>k \<in> queuedSteps (snd (ServerEngine_step D N P s)) p. step i \<le> k"
  proof (cases "oldestDueStep s p")
    case None
    with le show ?thesis
      by (simp add: ServerEngine_step_player)
  next
    case (Some m)
    have b: "\<forall>i \<in> set (queuedInputs s p m). step i = m"
      by (rule queued_have_step(1) [OF acc])
    with le oldestDueStep_least(2) [OF Some] Some show ?thesis
      by (auto simp: ServerEngine_step_player)
  qed
qed

lemma sorted_after_queue:
  assumes acc: "\<forall>k. filter (\<lambda>i. step i = k) rcv
             = filter (\<lambda>i. step i = k) (processedInputs p (effects (gameEngine s)))
               @ queuedInputs s p k"
    and srt: "sorted (map step (rcv @ (if q = p then [d] else [])))"
    and le: "\<forall>i \<in> set (processedInputs p (effects (gameEngine s))).
               \<forall>k \<in> queuedSteps s p. step i \<le> k"
  shows "\<forall>i \<in> set (processedInputs p (effects (gameEngine (queueInputForPlayer s d q)))).
               \<forall>k \<in> queuedSteps (queueInputForPlayer s d q) p. step i \<le> k"
proof (cases "q = p")
  case True
  have "\<forall>i \<in> set rcv. step i \<le> step d"
    using srt True by (simp add: sorted_append)
  with queued_have_step(2) [OF acc]
  have "\<forall>i \<in> set (processedInputs p (effects (gameEngine s))). step i \<le> step d"
    by blast
  with le True show ?thesis
    by (simp add: queueInputForPlayer_gameEngine queueInputForPlayer_steps)
next
  case False
  with le show ?thesis
    by (simp add: queueInputForPlayer_gameEngine queueInputForPlayer_steps)
qed

lemma runServer_sorted:
  assumes "\<forall>k. filter (\<lambda>i. step i = k) rcv
             = filter (\<lambda>i. step i = k) (processedInputs p (effects (gameEngine s)))
               @ queuedInputs s p k"
    and "sorted (map step (rcv @ receivedInputs p (handledEvents D N P evs s)))"
    and "sorted (map step (processedInputs p (effects (gameEngine s))))"
    and "\<forall>i \<in> set (processedInputs p (effects (gameEngine s))).
               \<forall>k \<in> queuedSteps s p. step i \<le> k"
  shows "sorted (map step (processedInputs p
           (effects (gameEngine (snd (runServer D N P evs s))))))"
  using assms
proof (induction evs arbitrary: s rcv)
  case Nil
  then show ?case
    by simp
next
  case (Cons ev evs)
  show ?case
  proof (cases ev)
    case (ReceiveInput d q)
    have rcv: "rcv @ receivedInputs p (handledEvents D N P (ev # evs) s)
        = (rcv @ (if q = p then [d] else []))
          @ receivedInputs p (handledEvents D N P evs (queueInputForPlayer s d q))"
      and run: "runServer D N P (ev # evs) s = runServer D N P evs (queueInputForPlayer s d q)"
      using ReceiveInput by simp_all
    from Cons.prems(2) have srt: "sorted (map step ((rcv @ (if q = p then [d] else []))
        @ receivedInputs p (handledEvents D N P evs (queueInputForPlayer s d q))))"
      unfolding rcv .
    then have srt': "sorted (map step (rcv @ (if q = p then [d] else [])))"
      by (simp add: sorted_append)
    show ?thesis
      unfolding run
    proof (rule Cons.IH [OF accounted_queue [OF Cons.prems(1)] srt])
      show "sorted (map step (processedInputs p (effects (gameEngine (queueInputForPlayer s d q)))))"
        using Cons.prems(3) by (simp add: queueInputForPlayer_gameEngine)
      show "\<forall>i \<in> set (processedInputs p (effects (gameEngine (queueInputForPlayer s d q)))).
               \<forall>k \<in> queuedSteps (queueInputForPlayer s d q) p. step i \<le> k"
        by (rule sorted_after_queue [OF Cons.prems(1) srt' Cons.prems(4)])
    qed
  next
    case Tick
    note acc = accounted_step [OF Cons.prems(1), of D N P]
    note after = sorted_after_step [OF Cons.prems(1) Cons.prems(3) Cons.prems(4), of D N P]
    show ?thesis
    proof (cases "fst (ServerEngine_step D N P s)")
      case (Inl err)
      with after(1) show ?thesis
        unfolding Tick by (simp add: runServer_Tick del: runServer.simps handledEvents.simps)
    next
      case (Inr u)
      from Cons.prems(2) Inr
      have srt: "sorted (map step (rcv @ receivedInputs p
          (handledEvents D N P evs (snd (ServerEngine_step D N P s)))))"
        unfolding Tick by (simp add: runServer_Tick del: runServer.simps handledEvents.simps)
      from Cons.IH [OF acc srt after] Inr show ?thesis
        unfolding Tick by (simp add: runServer_Tick del: runServer.simps handledEvents.simps)
    qed
  qed
qed

lemma oldestDueStep_none:
  assumes "oldestDueStep s p = None"
  shows "\<forall>k \<in> queuedSteps s p. stepCount (world (gameEngine s)) < k"
proof
  fix k
  assume k: "k \<in> queuedSteps s p"
  then obtain q where q: "map_of (playerInputQueues s) p = Some q" and kq: "k \<in> fst ` set q"
    by (auto simp: queuedSteps_def split: option.splits)
  from kq have ne: "map fst q \<noteq> []"
    by auto
  with assms q have "\<not> Min (set (map fst q)) \<le> stepCount (world (gameEngine s))"
    by (simp add: oldestDueStep_def split: if_splits)
  moreover from kq have "Min (set (map fst q)) \<le> k"
    by (intro Min_le) auto
  ultimately show "stepCount (world (gameEngine s)) < k"
    by simp
qed

lemma accounted_mset:
  assumes "\<forall>k. filter (\<lambda>i. step i = k) rcv = filter (\<lambda>i. step i = k) proc @ queued k"
  shows "mset proc \<subseteq># mset rcv"
proof (rule mset_subset_eqI)
  fix a :: "'a InputDescriptor_scheme"
  from assms have "mset (filter (\<lambda>i. step i = step a) rcv)
      = mset (filter (\<lambda>i. step i = step a) proc) + mset (queued (step a))"
    by simp
  then have "count (mset (filter (\<lambda>i. step i = step a) rcv)) a
      = count (mset (filter (\<lambda>i. step i = step a) proc)) a + count (mset (queued (step a))) a"
    by simp
  then show "count (mset proc) a \<le> count (mset rcv) a"
    by simp
qed

lemma nothing_queued_accounted:
  assumes "queuedSteps s p = {}" and "processedInputs p (effects (gameEngine s)) = []"
  shows "\<forall>k. filter (\<lambda>i. step i = k) []
     = filter (\<lambda>i. step i = k) (processedInputs p (effects (gameEngine s)))
       @ queuedInputs s p k"
  using assms by (auto simp: queuedInputs_def queuedSteps_def split: option.splits)

text \<open>
  C4. Take a server in any state in which a player has nothing queued and nothing processed
  (a server started fresh is one), and any run of arrivals and steps from it; the run ends
  at the first step that raises, and only the events that it got to count. For every such
  run and player: the inputs received for a step are those already handed to
  \<^verbatim>\<open>processInput\<close> followed by those still queued under that step, in the order of arrival,
  so none is handed over twice and none out of its order of arrival within its step; if the
  inputs of the player arrive in ascending step order, they are processed in ascending step
  order. One server step, from any state and whether it returns or raises in the
  synchronisation of the clients, hands over for each player exactly the list queued under
  the least step of the player's queue, provided that step is not ahead of the step counter,
  and removes that list from the queue; otherwise it hands over nothing of the player's and
  leaves the queue.
\<close>

theorem server_inputs_replayed_once_in_order:
  fixes deserialize :: "8 word list \<Rightarrow> error + Serializable"
    and newInstance :: "Serializable \<Rightarrow> Serializable"
    and serializePayload :: "networkedEvent list \<Rightarrow> error + 8 word list"
    and evs :: "serverEvent list" and pid :: nat
    and initial :: "NetworkedObject ServerEngine" and s' :: "NetworkedObject ServerEngine"
  defines "handled \<equiv> handledEvents deserialize newInstance serializePayload evs initial"
  defines "s \<equiv> snd (runServer deserialize newInstance serializePayload evs initial)"
  defines "processed \<equiv> processedInputs pid (effects (gameEngine s))"
  defines "stepped \<equiv> snd (ServerEngine_step deserialize newInstance serializePayload s')"
  assumes "queuedSteps initial pid = {}" and "processedInputs pid (effects (gameEngine initial)) = []"
  shows "(\<forall>k. filter (\<lambda>i. step i = k) (receivedInputs pid handled)
            = filter (\<lambda>i. step i = k) processed @ queuedInputs s pid k)
    \<and> mset processed \<subseteq># mset (receivedInputs pid handled)
    \<and> (sorted (map step (receivedInputs pid handled)) \<longrightarrow> sorted (map step processed))
    \<and> (\<exists>rest. evs = handled @ rest)
    \<and> (fst (runServer deserialize newInstance serializePayload evs initial) = Inr ()
         \<longrightarrow> handled = evs)
    \<and> processedInputs pid (effects (gameEngine stepped))
        = processedInputs pid (effects (gameEngine s'))
          @ (case oldestDueStep s' pid of None \<Rightarrow> [] | Some m \<Rightarrow> queuedInputs s' pid m)
    \<and> (\<forall>k. queuedInputs stepped pid k
          = (if oldestDueStep s' pid = Some k then [] else queuedInputs s' pid k))
    \<and> (\<forall>m. oldestDueStep s' pid = Some m \<longrightarrow>
          m \<in> queuedSteps s' pid \<and> (\<forall>k \<in> queuedSteps s' pid. m \<le> k)
          \<and> m \<le> stepCount (world (gameEngine s')))
    \<and> (oldestDueStep s' pid = None \<longrightarrow>
          (\<forall>k \<in> queuedSteps s' pid. stepCount (world (gameEngine s')) < k))"
proof -
  note start = nothing_queued_accounted [OF assms(5) assms(6)]
  have acc: "\<forall>k. filter (\<lambda>i. step i = k) (receivedInputs pid handled)
            = filter (\<lambda>i. step i = k) processed @ queuedInputs s pid k"
    using runServer_accounted [OF start, of deserialize newInstance serializePayload evs]
    by (simp add: s_def processed_def handled_def)
  have once: "mset processed \<subseteq># mset (receivedInputs pid handled)"
    by (rule accounted_mset [OF acc])
  have ordered: "sorted (map step processed)"
    if "sorted (map step (receivedInputs pid handled))"
    unfolding processed_def s_def
  proof (rule runServer_sorted [OF start])
    show "sorted (map step ([] @ receivedInputs pid
        (handledEvents deserialize newInstance serializePayload evs initial)))"
      using that by (simp add: handled_def)
    show "sorted (map step (processedInputs pid (effects (gameEngine initial))))"
      by (simp add: assms(6))
    show "\<forall>i \<in> set (processedInputs pid (effects (gameEngine initial))).
        \<forall>k \<in> queuedSteps initial pid. step i \<le> k"
      by (simp add: assms(6))
  qed
  have pre: "\<exists>rest. evs = handled @ rest"
    unfolding handled_def by (rule handledEvents_prefix)
  have all: "fst (runServer deserialize newInstance serializePayload evs initial) = Inr ()
         \<longrightarrow> handled = evs"
    unfolding handled_def using handledEvents_all by blast
  have least: "\<forall>m. oldestDueStep s' pid = Some m \<longrightarrow>
          m \<in> queuedSteps s' pid \<and> (\<forall>k \<in> queuedSteps s' pid. m \<le> k)
          \<and> m \<le> stepCount (world (gameEngine s'))"
    using oldestDueStep_least [of s' pid] by blast
  have none: "oldestDueStep s' pid = None \<longrightarrow>
          (\<forall>k \<in> queuedSteps s' pid. stepCount (world (gameEngine s')) < k)"
    using oldestDueStep_none [of s' pid] by blast
  from acc once ordered pre all least none show ?thesis
    by (simp add: stepped_def ServerEngine_step_player)
qed

lemma serialize_playerNow:
  "serialize playerNow \<lparr>dataBuffer = None, bufferOffset = None, dry = None\<rparr>
     = Inl (TypeError ''netScheme.sort is not a function'')"
proof -
  have n: "netScheme playerNow \<noteq> None \<or> classNetScheme playerNow \<noteq> None"
    by (simp add: playerNow_def newPlayer_def)
  show ?thesis
    by (subst serialize.simps) (simp add: Let_def serialize_dry_netScheme [OF n])
qed

theorem server_inputs_replayed_once_in_order_witness:
  "queuedSteps (newServerEngine :: NetworkedObject ServerEngine) 1 = {}
   \<and> processedInputs 1 (effects (gameEngine (newServerEngine :: NetworkedObject ServerEngine))) = []
   \<and> fst (runServer (\<lambda>buffer. Inr playerBefore) (\<lambda>this. newPlayer) (\<lambda>events. Inr [])
      [ReceiveInput \<lparr>input = ''up'', messageIndex = 0, step = 0, options = None\<rparr> 1,
       ReceiveInput \<lparr>input = ''fire'', messageIndex = 1, step = 0, options = None\<rparr> 1,
       Tick,
       ReceiveInput \<lparr>input = ''up'', messageIndex = 2, step = 1, options = None\<rparr> 1,
       Tick] newServerEngine) = Inr ()
   \<and> sorted (map step (receivedInputs 1
      (handledEvents (\<lambda>buffer. Inr playerBefore) (\<lambda>this. newPlayer) (\<lambda>events. Inr [])
      [ReceiveInput \<lparr>input = ''up'', messageIndex = 0, step = 0, options = None\<rparr> 1,
       ReceiveInput \<lparr>input = ''fire'', messageIndex = 1, step = 0, options = None\<rparr> 1,
       Tick,
       ReceiveInput \<lparr>input = ''up'', messageIndex = 2, step = 1, options = None\<rparr> 1,
       Tick] newServerEngine)))
   \<and> sorted (map step (processedInputs 1 (effects (gameEngine (snd
      (runServer (\<lambda>buffer. Inr playerBefore) (\<lambda>this. newPlayer) (\<lambda>events. Inr [])
      [ReceiveInput \<lparr>input = ''up'', messageIndex = 0, step = 0, options = None\<rparr> 1,
       ReceiveInput \<lparr>input = ''fire'', messageIndex = 1, step = 0, options = None\<rparr> 1,
       Tick,
       ReceiveInput \<lparr>input = ''up'', messageIndex = 2, step = 1, options = None\<rparr> 1,
       Tick] newServerEngine))))))
   \<and> processedInputs 1 (effects (gameEngine (snd
      (runServer (\<lambda>buffer. Inr playerBefore) (\<lambda>this. newPlayer) (\<lambda>events. Inr [])
      [ReceiveInput \<lparr>input = ''up'', messageIndex = 0, step = 0, options = None\<rparr> 1,
       ReceiveInput \<lparr>input = ''fire'', messageIndex = 1, step = 0, options = None\<rparr> 1,
       Tick,
       ReceiveInput \<lparr>input = ''up'', messageIndex = 2, step = 1, options = None\<rparr> 1,
       Tick] newServerEngine))))
     = [\<lparr>input = ''up'', messageIndex = 0, step = 0, options = None\<rparr>,
        \<lparr>input = ''fire'', messageIndex = 1, step = 0, options = None\<rparr>,
        \<lparr>input = ''up'', messageIndex = 2, step = 1, options = None\<rparr>]
   \<and> fst (ServerEngine_step (\<lambda>buffer. Inr playerBefore) (\<lambda>this. newPlayer) (\<lambda>events. Inr [])
        (queueInputForPlayer serverBeforeSync
          \<lparr>input = ''up'', messageIndex = 0, step = 0, options = None\<rparr> 1))
     = Inl (TypeError ''netScheme.sort is not a function'')
   \<and> oldestDueStep (queueInputForPlayer serverBeforeSync
        \<lparr>input = ''up'', messageIndex = 0, step = 0, options = None\<rparr> 1) 1 = Some 0
   \<and> processedInputs 1 (effects (gameEngine (snd (ServerEngine_step
        (\<lambda>buffer. Inr playerBefore) (\<lambda>this. newPlayer) (\<lambda>events. Inr [])
        (queueInputForPlayer serverBeforeSync
          \<lparr>input = ''up'', messageIndex = 0, step = 0, options = None\<rparr> 1)))))
     = [\<lparr>input = ''up'', messageIndex = 0, step = 0, options = None\<rparr>]
   \<and> queuedInputs (snd (ServerEngine_step
        (\<lambda>buffer. Inr playerBefore) (\<lambda>this. newPlayer) (\<lambda>events. Inr [])
        (queueInputForPlayer serverBeforeSync
          \<lparr>input = ''up'', messageIndex = 0, step = 0, options = None\<rparr> 1))) 1 0 = []
   \<and> oldestDueStep (queueInputForPlayer (newServerEngine :: NetworkedObject ServerEngine)
        \<lparr>input = ''up'', messageIndex = 0, step = 5, options = None\<rparr> 1) 1 = None
   \<and> processedInputs 1 (effects (gameEngine (snd (ServerEngine_step
        (\<lambda>buffer. Inr playerBefore) (\<lambda>this. newPlayer) (\<lambda>events. Inr [])
        (queueInputForPlayer newServerEngine
          \<lparr>input = ''up'', messageIndex = 0, step = 5, options = None\<rparr> 1))))) = []"
proof -
  let ?D = "\<lambda>buffer :: 8 word list. (Inr playerBefore :: error + Serializable)"
  let ?N = "\<lambda>this :: Serializable. newPlayer"
  let ?P = "\<lambda>events :: networkedEvent list. (Inr [] :: error + 8 word list)"
  let ?new = "newServerEngine :: NetworkedObject ServerEngine"
  let ?evs = "[ReceiveInput \<lparr>input = ''up'', messageIndex = 0, step = 0, options = None\<rparr> 1,
       ReceiveInput \<lparr>input = ''fire'', messageIndex = 1, step = 0, options = None\<rparr> 1,
       Tick,
       ReceiveInput \<lparr>input = ''up'', messageIndex = 2, step = 1, options = None\<rparr> 1,
       Tick]"
  let ?due = "queueInputForPlayer serverBeforeSync
        \<lparr>input = ''up'', messageIndex = 0, step = 0, options = None\<rparr> 1"
  let ?early = "queueInputForPlayer ?new
        \<lparr>input = ''up'', messageIndex = 0, step = 5, options = None\<rparr> 1"
  note defs = newServerEngine_def serverBeforeSync_def pruningServer_def
    queueInputForPlayer_def ServerEngine_step_def replayForPlayer_def replayOldestStep_def
    GameEngine_step_def dispatchInput_def syncStateToClients_def serializeUpdate_def
    addNetworkedEvent_def Let_def serialize_playerNow
  have fresh: "queuedSteps ?new 1 = {}" "processedInputs 1 (effects (gameEngine ?new)) = []"
    by (simp_all add: newServerEngine_def queuedSteps_def)
  have returns: "fst (runServer ?D ?N ?P ?evs ?new) = Inr ()"
    by (simp add: defs)
  have received: "sorted (map step (receivedInputs 1 (handledEvents ?D ?N ?P ?evs ?new)))"
    by (simp add: defs)
  note run_and_step = server_inputs_replayed_once_in_order
    [where deserialize = ?D and newInstance = ?N and serializePayload = ?P
       and initial = ?new and pid = 1 and evs = ?evs, OF fresh]
  from run_and_step [where s' = ?due] received
  have ordered: "sorted (map step (processedInputs 1 (effects (gameEngine
      (snd (runServer ?D ?N ?P ?evs ?new))))))"
    and due_step: "processedInputs 1 (effects (gameEngine (snd (ServerEngine_step ?D ?N ?P ?due))))
        = processedInputs 1 (effects (gameEngine ?due))
          @ (case oldestDueStep ?due 1 of None \<Rightarrow> [] | Some m \<Rightarrow> queuedInputs ?due 1 m)"
    and due_queue: "\<forall>k. queuedInputs (snd (ServerEngine_step ?D ?N ?P ?due)) 1 k
          = (if oldestDueStep ?due 1 = Some k then [] else queuedInputs ?due 1 k)"
    by blast+
  from run_and_step [where s' = ?early]
  have early_step: "processedInputs 1 (effects (gameEngine (snd (ServerEngine_step ?D ?N ?P ?early))))
        = processedInputs 1 (effects (gameEngine ?early))
          @ (case oldestDueStep ?early 1 of None \<Rightarrow> [] | Some m \<Rightarrow> queuedInputs ?early 1 m)"
    by blast
  have due: "oldestDueStep ?due 1 = Some 0"
    and "queuedInputs ?due 1 0 = [\<lparr>input = ''up'', messageIndex = 0, step = 0, options = None\<rparr>]"
    and early: "oldestDueStep ?early 1 = None"
    and "processedInputs 1 (effects (gameEngine ?due)) = []"
    and "processedInputs 1 (effects (gameEngine ?early)) = []"
    by (simp_all add: oldestDueStep_def queuedInputs_def queueInputForPlayer_def
        newServerEngine_def serverBeforeSync_def pruningServer_def Let_def)
  with due_step due_queue early_step
  have steps: "processedInputs 1 (effects (gameEngine (snd (ServerEngine_step ?D ?N ?P ?due))))
        = [\<lparr>input = ''up'', messageIndex = 0, step = 0, options = None\<rparr>]"
      "queuedInputs (snd (ServerEngine_step ?D ?N ?P ?due)) 1 0 = []"
      "processedInputs 1 (effects (gameEngine (snd (ServerEngine_step ?D ?N ?P ?early)))) = []"
    by simp_all
  have raises: "fst (ServerEngine_step ?D ?N ?P ?due)
      = Inl (TypeError ''netScheme.sort is not a function'')"
    by (simp add: defs)
  have run: "processedInputs 1 (effects (gameEngine (snd (runServer ?D ?N ?P ?evs ?new))))
     = [\<lparr>input = ''up'', messageIndex = 0, step = 0, options = None\<rparr>,
        \<lparr>input = ''fire'', messageIndex = 1, step = 0, options = None\<rparr>,
        \<lparr>input = ''up'', messageIndex = 2, step = 1, options = None\<rparr>]"
    by (simp add: defs)
  from fresh returns received ordered run raises due early steps show ?thesis
    by blast
qed

section \<open>Properties of re-enactment\<close>












lemma set_update_subset_insert: "set (AList.update k v al) \<subseteq> insert (k, v) (set al)"
  by (induction al) auto

lemma clientInputSave_saved:
  assumes "recentInputsSaved (recentInputs st)"
  shows "recentInputsSaved (recentInputs (clientInputSave st inp))"
proof -
  define saved where "saved = (case map_of (recentInputs st) (step inp) of None \<Rightarrow> [] | Some b \<Rightarrow> b)"
  have old: "\<forall>i \<in> set saved. step i = step inp"
  proof (cases "map_of (recentInputs st) (step inp)")
    case None
    then show ?thesis
      by (simp add: saved_def)
  next
    case (Some b)
    then have "(step inp, b) \<in> set (recentInputs st)"
      by (rule map_of_SomeD)
    with assms Some show ?thesis
      by (auto simp: recentInputsSaved_def saved_def)
  qed
  have new: "recentInputs (clientInputSave st inp)
      = AList.update (step inp) (saved @ [inp]) (recentInputs st)"
    by (simp add: clientInputSave_def Let_def saved_def)
  show ?thesis
    unfolding recentInputsSaved_def new
  proof (intro ballI)
    fix kb
    assume "kb \<in> set (AList.update (step inp) (saved @ [inp]) (recentInputs st))"
    with set_update_subset_insert [of "step inp" "saved @ [inp]" "recentInputs st"]
    have "kb = (step inp, saved @ [inp]) \<or> kb \<in> set (recentInputs st)"
      by blast
    then show "case kb of (k, b) \<Rightarrow> b \<noteq> [] \<and> (\<forall>i \<in> set b. step i = k)"
    proof
      assume "kb = (step inp, saved @ [inp])"
      with old show ?thesis
        by simp
    next
      assume "kb \<in> set (recentInputs st)"
      with assms show ?thesis
        by (simp add: recentInputsSaved_def)
    qed
  qed
qed


section \<open>Properties of bending\<close>


lemma add_zero_vec: "add p (multiplyScalar d 0) = p"
  by (simp add: add_def multiplyScalar_def)

lemma add_add_vec: "add (add p (multiplyScalar d a)) (multiplyScalar d b) = add p (multiplyScalar d (a + b))"
  by (simp add: add_def multiplyScalar_def algebra_simps)

lemma applyTimes_general:
  assumes "bendingPositionDelta this = Some pd"
    and "bendingVelocityDelta this = Some vd"
    and "n \<le> bendingIncrements this"
  shows "applyIncrementalBendingTimes n sd this =
     Inr (this\<lparr>position := add (position this) (multiplyScalar pd (timeFactorOf sd * real n)),
              velocity := add (velocity this) (multiplyScalar vd (timeFactorOf sd * real n)),
              angularVelocity := angularVelocity this + bendingAVDelta this * (timeFactorOf sd * real n),
              angle := angle this + bendingAngleDelta this * (timeFactorOf sd * real n),
              bendingIncrements := bendingIncrements this - n\<rparr>)"
  using assms
proof (induction n arbitrary: this)
  case 0
  then show ?case
    by (simp add: add_zero_vec)
next
  case (Suc n)
  from Suc.prems have pos: "bendingIncrements this \<noteq> 0"
    by simp
  let ?this' = "this\<lparr>position := add (position this) (multiplyScalar pd (timeFactorOf sd)),
                     velocity := add (velocity this) (multiplyScalar vd (timeFactorOf sd)),
                     angularVelocity := angularVelocity this + bendingAVDelta this * timeFactorOf sd,
                     angle := angle this + bendingAngleDelta this * timeFactorOf sd,
                     bendingIncrements := bendingIncrements this - 1\<rparr>"
  from Suc.prems pos have one: "applyIncrementalBending this sd = Inr ?this'"
    by (simp add: applyIncrementalBending_def Let_def)
  have "applyIncrementalBendingTimes n sd ?this' = Inr (?this'\<lparr>position := add (position ?this') (multiplyScalar pd (timeFactorOf sd * real n)),
              velocity := add (velocity ?this') (multiplyScalar vd (timeFactorOf sd * real n)),
              angularVelocity := angularVelocity ?this' + bendingAVDelta ?this' * (timeFactorOf sd * real n),
              angle := angle ?this' + bendingAngleDelta ?this' * (timeFactorOf sd * real n),
              bendingIncrements := bendingIncrements ?this' - n\<rparr>)"
    using Suc.prems by (intro Suc.IH) simp_all
  with one show ?case
    by (simp add: add_add_vec algebra_simps)
qed

lemma assignBend_None [simp]: "assignBend b None = b"
  by (simp add: assignBend_def)

lemma bendToCurrent_noBending:
  assumes "bending this = noBending" and "0 < n"
  shows "bendToCurrent this fromSource p isLocal n =
    Some (this\<lparr>bendingPositionDelta := Some (multiplyScalar (multiplyScalar (subtract (position this) (position fromSource)) p) (1 / real n)),
               bendingVelocityDelta := Some (multiplyScalar (multiplyScalar (subtract (velocity this) (velocity fromSource)) p) (1 / real n)),
               bendingAVDelta := (angularVelocity this - angularVelocity fromSource) * (p / real n) * p,
               bendingAngleDelta := interpolateDeltaWithWrapping (angle fromSource) (angle this) p 0 (2 * pi) / real n,
               bendingTarget := Some (snapshot this),
               position := position fromSource,
               angle := angle fromSource,
               angularVelocity := angularVelocity fromSource,
               velocity := velocity fromSource,
               bendingIncrements := n,
               bendingOptions := Some \<lparr>percent = p, min_opt = None, max_opt = None, increments = n\<rparr>\<rparr>)"
  using assms
  by (simp add: bendToCurrent_def Let_def noBending_def getBendingDelta_def)

text \<open>
  C3 (scenario S5). An object at position \<open>(10, 0)\<close> with saved-state position \<open>(0, 0)\<close> and
  no bending overrides: \<^verbatim>\<open>bendToCurrent\<close> with percent 0.5 and 10 increments resets the
  position to \<open>(0, 0)\<close> and sets \<^verbatim>\<open>bendingPositionDelta\<close> to \<open>(0.5, 0)\<close>; ten calls of
  \<^verbatim>\<open>applyIncrementalBending\<close> with \<^verbatim>\<open>dt = 1000/60\<close> then leave the position at \<open>(5, 0)\<close>
  and \<^verbatim>\<open>bendingIncrements\<close> at 0.
\<close>

theorem bending_scenario_S5:
  assumes "position this = \<lparr>vx = 10, vy = 0\<rparr>"
    and "position fromSource = \<lparr>vx = 0, vy = 0\<rparr>"
    and "bending this = noBending"
  shows "\<exists>this'. bendToCurrent this fromSource (1 / 2) isLocal 10 = Some this'
      \<and> position this' = \<lparr>vx = 0, vy = 0\<rparr>
      \<and> bendingPositionDelta this' = Some \<lparr>vx = 1 / 2, vy = 0\<rparr>
      \<and> (\<exists>final. applyIncrementalBendingTimes 10 (Some \<lparr>dt = Some (1000 / 60)\<rparr>) this' = Inr final
            \<and> position final = \<lparr>vx = 5, vy = 0\<rparr>
            \<and> bendingIncrements final = 0)"
proof -
  let ?sd = "Some \<lparr>dt = Some (1000 / 60)\<rparr>"
  have tf: "timeFactorOf ?sd = 1"
    by (simp add: timeFactorOf_def)
  from assms(3) obtain this' where
    b: "bendToCurrent this fromSource (1 / 2) isLocal 10 = Some this'"
    and this': "this' = this\<lparr>bendingPositionDelta := Some (multiplyScalar (multiplyScalar (subtract (position this) (position fromSource)) (1/2)) (1 / real 10)),
               bendingVelocityDelta := Some (multiplyScalar (multiplyScalar (subtract (velocity this) (velocity fromSource)) (1/2)) (1 / real 10)),
               bendingAVDelta := (angularVelocity this - angularVelocity fromSource) * ((1/2) / real 10) * (1/2),
               bendingAngleDelta := interpolateDeltaWithWrapping (angle fromSource) (angle this) (1/2) 0 (2 * pi) / real 10,
               bendingTarget := Some (snapshot this),
               position := position fromSource,
               angle := angle fromSource,
               angularVelocity := angularVelocity fromSource,
               velocity := velocity fromSource,
               bendingIncrements := 10,
               bendingOptions := Some \<lparr>percent = 1/2, min_opt = None, max_opt = None, increments = 10\<rparr>\<rparr>"
    using bendToCurrent_noBending [of this 10 fromSource "1/2" isLocal] by simp
  have pos': "position this' = \<lparr>vx = 0, vy = 0\<rparr>"
    using this' assms(2) by simp
  have pd: "bendingPositionDelta this' = Some \<lparr>vx = 1 / 2, vy = 0\<rparr>"
    using this' assms(1,2) by (simp add: multiplyScalar_def subtract_def)
  obtain vd where vd: "bendingVelocityDelta this' = Some vd"
    using this' by simp
  have inc: "(10::nat) \<le> bendingIncrements this'"
    using this' by simp
  from applyTimes_general [OF pd vd inc, of ?sd] obtain final where
    f: "applyIncrementalBendingTimes 10 ?sd this' = Inr final"
    and fpos: "position final = add (position this') (multiplyScalar \<lparr>vx = 1 / 2, vy = 0\<rparr> (timeFactorOf ?sd * real 10))"
    and finc: "bendingIncrements final = bendingIncrements this' - 10"
    by simp
  have "position final = \<lparr>vx = 5, vy = 0\<rparr>"
    using fpos pos' tf by (simp add: add_def multiplyScalar_def)
  moreover have "bendingIncrements final = 0"
    using finc this' by simp
  ultimately show ?thesis
    using b pos' pd f by simp
qed

theorem bending_scenario_S5_witness:
  "position scenarioS5_current = \<lparr>vx = 10, vy = 0\<rparr>
   \<and> position scenarioS5_saved = \<lparr>vx = 0, vy = 0\<rparr>
   \<and> bending scenarioS5_current = noBending
   \<and> map_option position (bendToCurrent scenarioS5_current scenarioS5_saved (1 / 2) False 10)
       = Some \<lparr>vx = 0, vy = 0\<rparr>
   \<and> map_option bendingPositionDelta (bendToCurrent scenarioS5_current scenarioS5_saved (1 / 2) False 10)
       = Some (Some \<lparr>vx = 1 / 2, vy = 0\<rparr>)
   \<and> map_option position
         (bendThenApplyAll scenarioS5_current scenarioS5_saved (1 / 2) False 10 (Some \<lparr>dt = Some (1000 / 60)\<rparr>))
       = Some \<lparr>vx = 5, vy = 0\<rparr>
   \<and> map_option bendingIncrements
         (bendThenApplyAll scenarioS5_current scenarioS5_saved (1 / 2) False 10 (Some \<lparr>dt = Some (1000 / 60)\<rparr>))
       = Some 0"
proof -
  have 1: "position scenarioS5_current = \<lparr>vx = 10, vy = 0\<rparr>"
    by (simp add: scenarioS5_current_def)
  have 2: "position scenarioS5_saved = \<lparr>vx = 0, vy = 0\<rparr>"
    by (simp add: scenarioS5_saved_def newPhysicalState_def)
  have 3: "bending scenarioS5_current = noBending"
    by (simp add: scenarioS5_current_def)
  from bending_scenario_S5 [OF 1 2 3, of False] 1 2 3 show ?thesis
    by (auto simp: bendThenApplyAll_def)
qed


subsection \<open>Rounding errors\<close>

































subsection \<open>Bending with rounding\<close>





lemma increments_fieldBending [simp]:
  "increments (fieldBending b override overrideLocal isLocal) = increments b"
  by (simp add: fieldBending_def assignBend_def split: option.splits)







text \<open>Without rounding, these are the definitions of exact arithmetic.\<close>

lemma vectors_unrounded:
  "add_fl (\<lambda>z. z) = add" "subtract_fl (\<lambda>z. z) = subtract"
  "multiplyScalar_fl (\<lambda>z. z) = multiplyScalar" "length_fl (\<lambda>z. z) = length_vec"
  by (simp_all add: fun_eq_iff add_fl_def add_def subtract_fl_def subtract_def
      multiplyScalar_fl_def multiplyScalar_def length_fl_def length_vec_def)

lemma getBendingDelta_unrounded: "getBendingDelta_fl (\<lambda>z. z) = getBendingDelta"
  by (simp add: fun_eq_iff getBendingDelta_fl_def getBendingDelta_def outsideLimits_def
      vectors_unrounded Let_def cong: option.case_cong)

lemma timeFactorOf_unrounded: "timeFactorOf_fl (\<lambda>z. z) = timeFactorOf"
  by (simp add: fun_eq_iff timeFactorOf_fl_def timeFactorOf_def)

lemma interpolateDeltaWithWrapping_unrounded:
  "interpolateDeltaWithWrapping_fl (\<lambda>z. z) = interpolateDeltaWithWrapping"
  by (simp add: fun_eq_iff interpolateDeltaWithWrapping_fl_def interpolateDeltaWithWrapping_def
      wrappedEnd_def wrappedStart_def Let_def)

lemma applyIncrementalBendingTimes_unrounded:
  "applyIncrementalBendingTimes_fl (\<lambda>z. z) n sd this = applyIncrementalBendingTimes n sd this"
proof (induction n arbitrary: this)
  case 0
  show ?case
    by simp
next
  case (Suc n)
  have "applyIncrementalBending_fl (\<lambda>z. z) this sd = applyIncrementalBending this sd"
    by (simp add: applyIncrementalBending_fl_def applyIncrementalBending_def
        timeFactorOf_unrounded vectors_unrounded Let_def cong: option.case_cong)
  with Suc show ?case
    by (simp split: sum.splits)
qed

lemma bendThenApplyAll_unrounded:
  "bendThenApplyAll_fl (\<lambda>z. z) this fromSource p isLocal n sd
     = bendThenApplyAll this fromSource p isLocal n sd"
proof -
  have "bendToCurrent_fl (\<lambda>z. z) this fromSource p isLocal n
      = bendToCurrent this fromSource p isLocal n"
    by (simp add: bendToCurrent_fl_def bendToCurrent_def Let_def fieldBending_def
        getBendingDelta_unrounded interpolateDeltaWithWrapping_unrounded)
  then show ?thesis
    by (simp add: bendThenApplyAll_fl_def bendThenApplyAll_def
        applyIncrementalBendingTimes_unrounded cong: option.case_cong)
qed


end
